theory Spec2Isabelle
  imports Main
begin

section \<open>Blocks, errors and the outside world\<close>

text \<open>
  The data of \<^verbatim>\<open>interfaces\<close>: a block carries its \<^verbatim>\<open>blockInfo\<close> and an ordered list of
  actions. Block numbers are JavaScript numbers holding integers; the payload of an action
  is opaque to the reader and the handler and is kept in serialised form.
\<close>

record block_info =
  blockNumber :: int
  blockHash :: string
  previousBlockHash :: string

record action =
  action_type :: string
  payload :: string

record block =
  blockInfo :: block_info
  actions :: "action list"

text \<open>
  A JavaScript number is a double: it holds an integer exactly when the integer is
  \<open>m * 2 ^ k\<close> with \<open>m\<close> below \<open>2 ^ 53\<close> in magnitude, and the sum or difference of two
  numbers is the real result rounded to the nearest double, to the one with the even
  mantissa in a tie. \<open>round_at q a\<close> rounds \<open>a \<ge> 0\<close> to a multiple of the least
  \<open>q, 2 * q, 4 * q, \<dots>\<close> that leaves a mantissa below \<open>2 ^ 53\<close> (the test \<open>q \<le> 0\<close> is
  never true from \<open>q = 1\<close>; results beyond the largest double are not considered). The
  handler's sums are written with \<open>js_add\<close> and \<open>js_sub\<close>; the reader's sums are written
  exact, which they are below \<open>2 ^ 53\<close>.
\<close>

function round_at :: "int \<Rightarrow> int \<Rightarrow> int" where
  "round_at q a =
     (if q \<le> 0 then a
      else if a < 2 ^ 53 * q
      then (let m = a div q; r = a mod q
            in if 2 * r < q \<or> (2 * r = q \<and> even m) then m * q else (m + 1) * q)
      else round_at (2 * q) a)"
  by pat_completeness auto
termination
  by (relation "measure (\<lambda>(q, a). nat (a - 2 ^ 53 * q + 1))") auto

declare round_at.simps [simp del]

definition to_double :: "int \<Rightarrow> int" where
  "to_double n = (if n < 0 then - round_at 1 (- n) else round_at 1 n)"

definition js_add :: "int \<Rightarrow> int \<Rightarrow> int" where
  "js_add a b = to_double (a + b)"

definition js_sub :: "int \<Rightarrow> int \<Rightarrow> int" where
  "js_sub a b = to_double (a - b)"

text \<open>
  Every \<^verbatim>\<open>throw\<close> of the two classes is a constructor. \<open>TypeError\<close> is the error the
  JavaScript runtime raises when a property of \<^verbatim>\<open>undefined\<close> or \<^verbatim>\<open>null\<close> is read;
  \<open>ExternalFault\<close> stands for whatever an abstract method, an updater or an effect throws.
\<close>

datatype error =
    CurrentBlockDataNull
  | SeekBeforeStart
  | ForkWithoutCurrentBlock
  | HistoryExhausted
  | TypeError
  | NoHandlerVersions
  | DuplicateVersion string
  | ChainMismatch
  | ExternalFault string

text \<open>
  The abstract methods, the updaters and the effects are supplied by the implementor. They
  act on an outside world of type \<open>'w\<close> (the chain, the database, the \<^verbatim>\<open>state\<close> and
  \<^verbatim>\<open>context\<close> objects) and are parameters of the model. Each call site of the source that
  leaves the class appends one event to a trace, so that which calls were made, with which
  arguments and in which order, is part of the result.
\<close>

datatype event =
    EvGetHeadBlockNumber
  | EvGetBlock int
  | EvHistoryExhausted
  | EvRollbackTo int
  | EvLoadIndexState
  | EvUpdateIndexState block bool string
  | EvHandleWithState
  | EvUpdaterApply string nat string block_info
  | EvEffectRun string nat string block

record 'w env =
  trace :: "event list"
  store :: 'w

definition call :: "event \<Rightarrow> ('w \<Rightarrow> 'a \<times> 'w) \<Rightarrow> 'w env \<Rightarrow> 'a \<times> 'w env" where
  "call ev f e = (case f (store e) of (x, s) \<Rightarrow> (x, \<lparr>trace = trace e @ [ev], store = s\<rparr>))"

section \<open>AbstractActionReader\<close>

text \<open>
  The abstract methods \<^verbatim>\<open>getHeadBlockNumber\<close> and \<^verbatim>\<open>getBlock\<close>, and the overridable
  \<^verbatim>\<open>historyExhausted\<close>. A promise that rejects is \<open>Inl\<close>. \<^verbatim>\<open>resolveFork\<close> tests the
  result of \<^verbatim>\<open>getBlock\<close> against \<^verbatim>\<open>null\<close>, so the result is a \<open>block option\<close>.
\<close>

record 'w chain_source =
  getHeadBlockNumber :: "'w \<Rightarrow> (error + int) \<times> 'w"
  getBlock :: "int \<Rightarrow> 'w \<Rightarrow> (error + block option) \<times> 'w"
  historyExhausted :: "'w \<Rightarrow> (error + unit) \<times> 'w"

text \<open>The body of \<^verbatim>\<open>historyExhausted\<close> as the class defines it: it always throws.\<close>

definition historyExhausted_default :: "'w \<Rightarrow> (error + unit) \<times> 'w" where
  "historyExhausted_default w = (Inl HistoryExhausted, w)"

record reader =
  startAtBlock :: int
  onlyIrreversible :: bool
  maxHistoryLength :: int
  headBlockNumber :: int
  currentBlockNumber :: int
  isFirstBlock :: bool
  currentBlockData :: "block option"
  blockHistory :: "block list"
  tmpBlocks :: "block option list"
  index :: nat

text \<open>The constructor (defaults \<^verbatim>\<open>startAtBlock = 1\<close>, \<^verbatim>\<open>onlyIrreversible = false\<close>,
  \<^verbatim>\<open>maxHistoryLength = 600\<close> are the caller's).\<close>

definition new_reader :: "int \<Rightarrow> bool \<Rightarrow> int \<Rightarrow> reader" where
  "new_reader start irr maxlen =
     \<lparr>startAtBlock = start, onlyIrreversible = irr, maxHistoryLength = maxlen,
      headBlockNumber = 0, currentBlockNumber = start - 1, isFirstBlock = True,
      currentBlockData = None, blockHistory = [], tmpBlocks = [], index = 0\<rparr>"

subsection \<open>seekToBlock\<close>

text \<open>
  The scan of \<^verbatim>\<open>seekToBlock\<close>: \<^verbatim>\<open>toDelete\<close> starts at \<open>-1\<close> and is incremented for every
  entry, newest first, until an entry with the wanted number is met. The first argument is
  the history reversed (newest first).
\<close>

fun scanHistory :: "block list \<Rightarrow> int \<Rightarrow> int \<Rightarrow> int" where
  "scanHistory [] n toDelete = toDelete"
| "scanHistory (b # bs) n toDelete =
     (if blockNumber (blockInfo b) = n then toDelete else scanHistory bs n (toDelete + 1))"

text \<open>
  \<^verbatim>\<open>this.blockHistory.splice(toDelete)\<close> keeps the first \<^verbatim>\<open>toDelete\<close> entries;
  \<^verbatim>\<open>this.blockHistory.pop() || null\<close> removes the last of those, or yields \<^verbatim>\<open>null\<close> when
  none is left.
\<close>

definition seekToBlock ::
  "'w chain_source \<Rightarrow> int \<Rightarrow> reader \<Rightarrow> 'w env \<Rightarrow> (error + unit) \<times> reader \<times> 'w env" where
  "seekToBlock src n r e =
     (let r1 = r\<lparr>currentBlockData := None, headBlockNumber := 0\<rparr> in
      if n < startAtBlock r1 then (Inl SeekBeforeStart, r1, e)
      else if n = 1 then (Inr (), r1\<lparr>blockHistory := [], currentBlockNumber := 0\<rparr>, e)
      else
        let toDelete = scanHistory (rev (blockHistory r1)) n (- 1);
            r2 = (if toDelete \<ge> 0
                  then (let kept = take (nat toDelete) (blockHistory r1)
                        in r1\<lparr>blockHistory := butlast kept,
                              currentBlockData := (if kept = [] then None else Some (last kept))\<rparr>)
                  else r1);
            r3 = r2\<lparr>currentBlockNumber := n - 1\<rparr>
        in case currentBlockData r3 of
             Some b \<Rightarrow> (Inr (), r3, e)
           | None \<Rightarrow>
               (case call (EvGetBlock (n - 1)) (getBlock src (n - 1)) e of
                  (Inl err, e1) \<Rightarrow> (Inl err, r3, e1)
                | (Inr b, e1) \<Rightarrow> (Inr (), r3\<lparr>currentBlockData := b\<rparr>, e1)))"

subsection \<open>resolveFork\<close>

text \<open>
  The \<^verbatim>\<open>while\<close> loop of \<^verbatim>\<open>resolveFork\<close>. Each round refetches the block with the current
  block's number and compares it with the newest entry of the history; on a match the loop
  is left with the refetched block as current block, otherwise the newest entry becomes the
  current block and is popped. The current block is present at the start of every round
  (reading \<^verbatim>\<open>blockInfo\<close> of \<^verbatim>\<open>null\<close> would be a \<open>TypeError\<close>).
\<close>

function resolveFork_loop ::
  "'w chain_source \<Rightarrow> reader \<Rightarrow> 'w env \<Rightarrow> (error + unit) \<times> reader \<times> 'w env" where
  "resolveFork_loop src r e =
     (if blockHistory r = [] then (Inr (), r, e)
      else
        let previousBlockData = last (blockHistory r) in
        case currentBlockData r of
          None \<Rightarrow> (Inl TypeError, r, e)
        | Some cur \<Rightarrow>
            (case call (EvGetBlock (blockNumber (blockInfo cur)))
                       (getBlock src (blockNumber (blockInfo cur))) e of
               (Inl err, e1) \<Rightarrow> (Inl err, r, e1)
             | (Inr fetched, e1) \<Rightarrow>
                 (if (case fetched of
                        None \<Rightarrow> False
                      | Some f \<Rightarrow> previousBlockHash (blockInfo f)
                                  = blockHash (blockInfo previousBlockData))
                  then (Inr (), r\<lparr>currentBlockData := fetched\<rparr>, e1)
                  else resolveFork_loop src
                         (r\<lparr>currentBlockData := Some previousBlockData,
                            blockHistory := butlast (blockHistory r)\<rparr>) e1)))"
  by pat_completeness auto
termination
  by (relation "measure (\<lambda>(src, r, e). length (blockHistory r))") auto

declare resolveFork_loop.simps [simp del]

text \<open>
  After the loop \<^verbatim>\<open>historyExhausted\<close> is called when the history is empty; should an
  override return, \<^verbatim>\<open>this.blockHistory[-1]\<close> is \<^verbatim>\<open>undefined\<close> and reading its
  \<^verbatim>\<open>blockInfo\<close> throws.
\<close>

definition resolveFork ::
  "'w chain_source \<Rightarrow> reader \<Rightarrow> 'w env \<Rightarrow> (error + unit) \<times> reader \<times> 'w env" where
  "resolveFork src r e =
     (if currentBlockData r = None then (Inl ForkWithoutCurrentBlock, r, e)
      else
        case resolveFork_loop src r e of
          (Inl err, r1, e1) \<Rightarrow> (Inl err, r1, e1)
        | (Inr u, r1, e1) \<Rightarrow>
            (case (if blockHistory r1 = []
                   then call EvHistoryExhausted (historyExhausted src) e1
                   else (Inr (), e1)) of
               (Inl err, e2) \<Rightarrow> (Inl err, r1, e2)
             | (Inr u2, e2) \<Rightarrow>
                 (if blockHistory r1 = [] then (Inl TypeError, r1, e2)
                  else (Inr (),
                        r1\<lparr>currentBlockNumber :=
                              blockNumber (blockInfo (last (blockHistory r1))) + 1\<rparr>,
                        e2))))"

subsection \<open>nextBlock\<close>

text \<open>Lines 53 to 57: the head is refetched when the reader is on it or has none.\<close>

definition refreshHead ::
  "'w chain_source \<Rightarrow> reader \<Rightarrow> 'w env \<Rightarrow> (error + unit) \<times> reader \<times> 'w env" where
  "refreshHead src r e =
     (if currentBlockNumber r = headBlockNumber r \<or> headBlockNumber r = 0
      then (case call EvGetHeadBlockNumber (getHeadBlockNumber src) e of
              (Inl err, e1) \<Rightarrow> (Inl err, r, e1)
            | (Inr h, e1) \<Rightarrow> (Inr (), r\<lparr>headBlockNumber := h, tmpBlocks := [], index := 0\<rparr>, e1))
      else (Inr (), r, e))"

text \<open>Lines 60 to 63: a negative current block number wraps to the end of the chain.\<close>

definition resolveTail :: "reader \<Rightarrow> reader" where
  "resolveTail r =
     (if currentBlockNumber r < 0 \<and> blockHistory r = []
      then (let c = headBlockNumber r + currentBlockNumber r
            in r\<lparr>currentBlockNumber := c, startAtBlock := c + 1\<rparr>)
      else r)"

text \<open>
  \<^verbatim>\<open>Promise.all\<close> over the tasks: every \<^verbatim>\<open>getBlock\<close> call has been issued, in the order of
  the loop, before any result is awaited; the results come back in the order of the tasks,
  and a rejected task rejects the whole (here the one of least index).
\<close>

fun fetchAll ::
  "'w chain_source \<Rightarrow> int list \<Rightarrow> 'w env \<Rightarrow> (error + block option list) \<times> 'w env" where
  "fetchAll src [] e = (Inr [], e)"
| "fetchAll src (n # ns) e =
     (case call (EvGetBlock n) (getBlock src n) e of
        (x, e1) \<Rightarrow>
          (case fetchAll src ns e1 of
             (xs, e2) \<Rightarrow>
               (case x of
                  Inl err \<Rightarrow> (Inl err, e2)
                | Inr b \<Rightarrow> (case xs of Inl err \<Rightarrow> (Inl err, e2) | Inr bs \<Rightarrow> (Inr (b # bs), e2)))))"

text \<open>
  Lines 66 to 73. The loop header is
  \<^verbatim>\<open>for (let i = (this.currentBlockNumber = 0); i < this.headBlockNumber; i++)\<close>:
  it assigns \<open>0\<close> to \<^verbatim>\<open>currentBlockNumber\<close> and requests the blocks \<open>0\<close> to
  \<^verbatim>\<open>headBlockNumber - 1\<close>.
\<close>

definition prefetch ::
  "'w chain_source \<Rightarrow> reader \<Rightarrow> 'w env \<Rightarrow> (error + unit) \<times> reader \<times> 'w env" where
  "prefetch src r e =
     (if tmpBlocks r = []
      then (let r1 = r\<lparr>currentBlockNumber := 0\<rparr> in
            case fetchAll src [0 .. headBlockNumber r1 - 1] e of
              (Inl err, e1) \<Rightarrow> (Inl err, r1, e1)
            | (Inr result, e1) \<Rightarrow> (Inr (), r1\<lparr>tmpBlocks := result\<rparr>, e1))
      else (Inr (), r, e))"

text \<open>
  Lines 75 to 102: the next prefetched block is taken (\<^verbatim>\<open>undefined\<close> beyond the end of
  the buffer) and either linked to the current block or treated as a fork. The result is
  \<open>(isRollback, isNewBlock)\<close>.
\<close>

definition consume ::
  "'w chain_source \<Rightarrow> reader \<Rightarrow> 'w env \<Rightarrow> (error + bool \<times> bool) \<times> reader \<times> 'w env" where
  "consume src r e =
     (let unvalidatedBlockData =
            (if index r < length (tmpBlocks r) then tmpBlocks r ! index r else None);
          r1 = r\<lparr>index := index r + 1\<rparr>;
          expectedHash = (case currentBlockData r1 of
                            Some c \<Rightarrow> blockHash (blockInfo c)
                          | None \<Rightarrow> ''INVALID'')
      in case unvalidatedBlockData of
           None \<Rightarrow> (Inl TypeError, r1, e)
         | Some u \<Rightarrow>
             (if expectedHash = previousBlockHash (blockInfo u) \<or> blockHistory r1 = []
              then
                (let pushed = (case currentBlockData r1 of
                                 Some c \<Rightarrow> blockHistory r1 @ [c]
                               | None \<Rightarrow> blockHistory r1);
                     trimmed = drop (nat (int (length pushed) - maxHistoryLength r1)) pushed
                 in (Inr (False, True),
                     r1\<lparr>blockHistory := trimmed, currentBlockData := Some u,
                        currentBlockNumber := blockNumber (blockInfo u)\<rparr>,
                     e))
              else
                (case resolveFork src r1 e of
                   (Inl err, r2, e2) \<Rightarrow> (Inl err, r2, e2)
                 | (Inr u2, r2, e2) \<Rightarrow>
                     (case call EvGetHeadBlockNumber (getHeadBlockNumber src) e2 of
                        (Inl err, e3) \<Rightarrow> (Inl err, r2, e3)
                      | (Inr h, e3) \<Rightarrow> (Inr (True, True), r2\<lparr>headBlockNumber := h\<rparr>, e3)))))"

text \<open>Lines 65 to 103.\<close>

definition advance ::
  "'w chain_source \<Rightarrow> reader \<Rightarrow> 'w env \<Rightarrow> (error + bool \<times> bool) \<times> reader \<times> 'w env" where
  "advance src r e =
     (if currentBlockNumber r < headBlockNumber r
      then (case prefetch src r e of
              (Inl err, r1, e1) \<Rightarrow> (Inl err, r1, e1)
            | (Inr u, r1, e1) \<Rightarrow> consume src r1 e1)
      else (Inr (False, False), r, e))"

definition nextBlock ::
  "'w chain_source \<Rightarrow> reader \<Rightarrow> 'w env \<Rightarrow> (error + block \<times> bool \<times> bool) \<times> reader \<times> 'w env" where
  "nextBlock src r e =
     (case refreshHead src r e of
        (Inl err, r1, e1) \<Rightarrow> (Inl err, r1, e1)
      | (Inr u, r1, e1) \<Rightarrow>
          (case advance src (resolveTail r1) e1 of
             (Inl err, r2, e2) \<Rightarrow> (Inl err, r2, e2)
           | (Inr (isRollback, isNewBlock), r2, e2) \<Rightarrow>
               (let r3 = r2\<lparr>isFirstBlock := (currentBlockNumber r2 = startAtBlock r2)\<rparr> in
                case currentBlockData r3 of
                  None \<Rightarrow> (Inl CurrentBlockDataNull, r3, e2)
                | Some b \<Rightarrow> (Inr (b, isRollback, isNewBlock), r3, e2))))"

section \<open>AbstractActionHandler\<close>

record index_state =
  indexState_blockNumber :: int
  indexState_blockHash :: string
  indexState_handlerVersionName :: string

text \<open>
  An updater's \<^verbatim>\<open>apply\<close> returns a new version name or nothing; it receives the payload and
  the block info (the \<^verbatim>\<open>state\<close> and \<^verbatim>\<open>context\<close> objects are part of the world). An effect's
  \<^verbatim>\<open>run\<close> is called and not awaited: \<open>Inl\<close> is an error it throws before returning.
\<close>

record 'w updater =
  updater_actionType :: string
  updater_apply :: "string \<Rightarrow> block_info \<Rightarrow> 'w \<Rightarrow> (error + string option) \<times> 'w"

record 'w effect =
  effect_actionType :: string
  effect_run :: "string \<Rightarrow> block \<Rightarrow> 'w \<Rightarrow> (error + unit) \<times> 'w"

record 'w handler_version =
  versionName :: string
  updaters :: "'w updater list"
  effects :: "'w effect list"

text \<open>
  \<^verbatim>\<open>handlerVersionMap\<close> is a JavaScript object, created as \<^verbatim>\<open>{}\<close> and used as a
  dictionary. It has its own properties and a prototype, which is \<^verbatim>\<open>Object.prototype\<close>
  (\<open>None\<close>) until a handler version is assigned to the key \<^verbatim>\<open>__proto__\<close>: that assignment
  creates no own property, it makes the handler version the prototype.
\<close>

record 'w version_map =
  ownProperties :: "string \<rightharpoonup> 'w handler_version"
  prototype :: "'w handler_version option"

text \<open>
  \<^verbatim>\<open>map.hasOwnProperty(k)\<close>: the method is found on \<^verbatim>\<open>Object.prototype\<close> unless the object
  has an own property of that name, and a handler version is not a function.
\<close>

definition hasOwnProperty :: "'w version_map \<Rightarrow> string \<Rightarrow> error + bool" where
  "hasOwnProperty m k =
     (if ownProperties m ''hasOwnProperty'' \<noteq> None then Inl TypeError
      else Inr (ownProperties m k \<noteq> None))"

text \<open>\<^verbatim>\<open>map[k] = hv\<close>.\<close>

definition setProperty :: "'w version_map \<Rightarrow> string \<Rightarrow> 'w handler_version \<Rightarrow> 'w version_map" where
  "setProperty m k hv =
     (if k = ''__proto__'' then m\<lparr>prototype := Some hv\<rparr>
      else m\<lparr>ownProperties := (ownProperties m)(k \<mapsto> hv)\<rparr>)"

text \<open>
  \<^verbatim>\<open>map[k]\<close> as far as \<^verbatim>\<open>applyUpdaters\<close> and \<^verbatim>\<open>runEffects\<close> can use it: a handler version
  whose \<^verbatim>\<open>updaters\<close> or \<^verbatim>\<open>effects\<close> can be iterated, or \<open>None\<close>. An own property is a
  handler version; \<^verbatim>\<open>__proto__\<close> reads the prototype; every other name is
  \<^verbatim>\<open>undefined\<close> or is inherited (a function of \<^verbatim>\<open>Object.prototype\<close>, or the name, the
  updaters or the effects of the handler version that is the prototype), and neither has
  \<^verbatim>\<open>updaters\<close> or \<^verbatim>\<open>effects\<close> to iterate.
\<close>

definition getVersion :: "'w version_map \<Rightarrow> string \<Rightarrow> 'w handler_version option" where
  "getVersion m k =
     (case ownProperties m k of
        Some hv \<Rightarrow> Some hv
      | None \<Rightarrow> (if k = ''__proto__'' then prototype m else None))"

record 'w handler =
  lastProcessedBlockNumber :: int
  lastProcessedBlockHash :: string
  handlerVersionName :: string
  handlerVersionMap :: "'w version_map"

text \<open>
  The abstract methods. \<^verbatim>\<open>handleWithState\<close> receives the closure \<^verbatim>\<open>handle\<close> and, as its
  documentation demands, calls it with a state object: what the implementation does before
  the call is \<open>handleWithState_enter\<close>, what it does with the outcome of \<^verbatim>\<open>handle\<close>
  (and what it then returns) is \<open>handleWithState_leave\<close>.
\<close>

record 'w hooks =
  updateIndexState :: "block \<Rightarrow> bool \<Rightarrow> string \<Rightarrow> 'w \<Rightarrow> (error + unit) \<times> 'w"
  loadIndexState :: "'w \<Rightarrow> (error + index_state) \<times> 'w"
  rollbackTo :: "int \<Rightarrow> 'w \<Rightarrow> (error + unit) \<times> 'w"
  handleWithState_enter :: "'w \<Rightarrow> (error + unit) \<times> 'w"
  handleWithState_leave :: "(error + unit) \<Rightarrow> 'w \<Rightarrow> (error + unit) \<times> 'w"

subsection \<open>The constructor\<close>

text \<open>The \<^verbatim>\<open>for\<close> loop of \<^verbatim>\<open>initHandlerVersions\<close>.\<close>

fun registerVersions ::
  "'w handler_version list \<Rightarrow> 'w version_map \<Rightarrow> error + 'w version_map" where
  "registerVersions [] m = Inr m"
| "registerVersions (hv # hvs) m =
     (case hasOwnProperty m (versionName hv) of
        Inl err \<Rightarrow> Inl err
      | Inr True \<Rightarrow> Inl (DuplicateVersion (versionName hv))
      | Inr False \<Rightarrow> registerVersions hvs (setProperty m (versionName hv) hv))"

definition new_handler :: "'w handler_version list \<Rightarrow> error + 'w handler" where
  "new_handler handlerVersions =
     (if handlerVersions = [] then Inl NoHandlerVersions
      else
        case registerVersions handlerVersions \<lparr>ownProperties = Map.empty, prototype = None\<rparr> of
          Inl err \<Rightarrow> Inl err
        | Inr m \<Rightarrow>
            (case hasOwnProperty m ''v1'' of
               Inl err \<Rightarrow> Inl err
             | Inr hasV1 \<Rightarrow>
                 Inr \<lparr>lastProcessedBlockNumber = 0, lastProcessedBlockHash = [],
                      handlerVersionName =
                        (if \<not> hasV1 then versionName (hd handlerVersions) else ''v1''),
                      handlerVersionMap = m\<rparr>))"

subsection \<open>refreshIndexState, applyUpdaters, runEffects, handleActions\<close>

definition refreshIndexState ::
  "'w hooks \<Rightarrow> 'w handler \<Rightarrow> 'w env \<Rightarrow> (error + unit) \<times> 'w handler \<times> 'w env" where
  "refreshIndexState hk h e =
     (case call EvLoadIndexState (loadIndexState hk) e of
        (Inl err, e1) \<Rightarrow> (Inl err, h, e1)
      | (Inr ix, e1) \<Rightarrow>
          (Inr (),
           h\<lparr>lastProcessedBlockNumber := indexState_blockNumber ix,
             lastProcessedBlockHash := indexState_blockHash ix,
             handlerVersionName := indexState_handlerVersionName ix\<rparr>,
           e1))"

text \<open>
  The inner loop of \<^verbatim>\<open>applyUpdaters\<close>, over the updaters of the version that is active when
  the action is reached; the \<open>nat\<close> is \<^verbatim>\<open>updaterIndex\<close>. A returned version name counts only
  when it is truthy, which for a string means non-empty; only then is \<^verbatim>\<open>hasOwnProperty\<close>
  called, and the name is switched to when the answer is \<^verbatim>\<open>true\<close>.
\<close>

fun runUpdaters ::
  "'w hooks \<Rightarrow> block \<Rightarrow> bool \<Rightarrow> action \<Rightarrow> nat \<Rightarrow> 'w updater list \<Rightarrow> 'w handler \<Rightarrow> 'w env
     \<Rightarrow> (error + unit) \<times> 'w handler \<times> 'w env" where
  "runUpdaters hk blk isReplay a updaterIndex [] h e = (Inr (), h, e)"
| "runUpdaters hk blk isReplay a updaterIndex (u # us) h e =
     (if action_type a = updater_actionType u
      then
        (case call (EvUpdaterApply (handlerVersionName h) updaterIndex (payload a) (blockInfo blk))
                   (updater_apply u (payload a) (blockInfo blk)) e of
           (Inl err, e1) \<Rightarrow> (Inl err, h, e1)
         | (Inr None, e1) \<Rightarrow> runUpdaters hk blk isReplay a (updaterIndex + 1) us h e1
         | (Inr (Some newVersion), e1) \<Rightarrow>
             (if newVersion = []
              then runUpdaters hk blk isReplay a (updaterIndex + 1) us h e1
              else
                (case hasOwnProperty (handlerVersionMap h) newVersion of
                   Inl err \<Rightarrow> (Inl err, h, e1)
                 | Inr False \<Rightarrow> runUpdaters hk blk isReplay a (updaterIndex + 1) us h e1
                 | Inr True \<Rightarrow>
                     (case call (EvUpdateIndexState blk isReplay newVersion)
                                (updateIndexState hk blk isReplay newVersion) e1 of
                        (Inl err, e2) \<Rightarrow> (Inl err, h, e2)
                      | (Inr x, e2) \<Rightarrow> (Inr (), h\<lparr>handlerVersionName := newVersion\<rparr>, e2)))))
      else runUpdaters hk blk isReplay a (updaterIndex + 1) us h e)"

text \<open>
  The outer loop, with \<^verbatim>\<open>versionedActions\<close> as accumulator. When the lookup of the active
  version name yields nothing whose \<^verbatim>\<open>updaters\<close> can be iterated, the loop throws.
\<close>

fun applyUpdaters_loop ::
  "'w hooks \<Rightarrow> block \<Rightarrow> bool \<Rightarrow> action list \<Rightarrow> (action \<times> string) list \<Rightarrow> 'w handler \<Rightarrow> 'w env
     \<Rightarrow> (error + (action \<times> string) list) \<times> 'w handler \<times> 'w env" where
  "applyUpdaters_loop hk blk isReplay [] versionedActions h e = (Inr versionedActions, h, e)"
| "applyUpdaters_loop hk blk isReplay (a # as) versionedActions h e =
     (case getVersion (handlerVersionMap h) (handlerVersionName h) of
        None \<Rightarrow> (Inl TypeError, h, e)
      | Some hv \<Rightarrow>
          (case runUpdaters hk blk isReplay a 0 (updaters hv) h e of
             (Inl err, h1, e1) \<Rightarrow> (Inl err, h1, e1)
           | (Inr x, h1, e1) \<Rightarrow>
               applyUpdaters_loop hk blk isReplay as
                 (versionedActions @ [(a, handlerVersionName h1)]) h1 e1))"

definition applyUpdaters ::
  "'w hooks \<Rightarrow> block \<Rightarrow> bool \<Rightarrow> 'w handler \<Rightarrow> 'w env
     \<Rightarrow> (error + (action \<times> string) list) \<times> 'w handler \<times> 'w env" where
  "applyUpdaters hk blk isReplay h e = applyUpdaters_loop hk blk isReplay (actions blk) [] h e"

text \<open>The inner and the outer loop of \<^verbatim>\<open>runEffects\<close>; the \<open>nat\<close> counts the effects.\<close>

fun runEffects_of ::
  "block \<Rightarrow> string \<Rightarrow> action \<Rightarrow> nat \<Rightarrow> 'w effect list \<Rightarrow> 'w env \<Rightarrow> (error + unit) \<times> 'w env" where
  "runEffects_of blk v a i [] e = (Inr (), e)"
| "runEffects_of blk v a i (f # fs) e =
     (if action_type a = effect_actionType f
      then (case call (EvEffectRun v i (payload a) blk) (effect_run f (payload a) blk) e of
              (Inl err, e1) \<Rightarrow> (Inl err, e1)
            | (Inr x, e1) \<Rightarrow> runEffects_of blk v a (i + 1) fs e1)
      else runEffects_of blk v a (i + 1) fs e)"

fun runEffects ::
  "'w version_map \<Rightarrow> (action \<times> string) list \<Rightarrow> block \<Rightarrow> 'w env
     \<Rightarrow> (error + unit) \<times> 'w env" where
  "runEffects m [] blk e = (Inr (), e)"
| "runEffects m ((a, v) # versionedActions) blk e =
     (case getVersion m v of
        None \<Rightarrow> (Inl TypeError, e)
      | Some hv \<Rightarrow>
          (case runEffects_of blk v a 0 (effects hv) e of
             (Inl err, e1) \<Rightarrow> (Inl err, e1)
           | (Inr x, e1) \<Rightarrow> runEffects m versionedActions blk e1))"

definition handleActions ::
  "'w hooks \<Rightarrow> block \<Rightarrow> bool \<Rightarrow> 'w handler \<Rightarrow> 'w env \<Rightarrow> (error + unit) \<times> 'w handler \<times> 'w env" where
  "handleActions hk blk isReplay h e =
     (case applyUpdaters hk blk isReplay h e of
        (Inl err, h1, e1) \<Rightarrow> (Inl err, h1, e1)
      | (Inr versionedActions, h1, e1) \<Rightarrow>
          (case (if \<not> isReplay then runEffects (handlerVersionMap h1) versionedActions blk e1
                 else (Inr (), e1)) of
             (Inl err, e2) \<Rightarrow> (Inl err, h1, e2)
           | (Inr x, e2) \<Rightarrow>
               (case call (EvUpdateIndexState blk isReplay (handlerVersionName h1))
                          (updateIndexState hk blk isReplay (handlerVersionName h1)) e2 of
                  (Inl err, e3) \<Rightarrow> (Inl err, h1, e3)
                | (Inr y, e3) \<Rightarrow>
                    (Inr (),
                     h1\<lparr>lastProcessedBlockNumber := blockNumber (blockInfo blk),
                        lastProcessedBlockHash := blockHash (blockInfo blk)\<rparr>,
                     e3))))"

subsection \<open>handleBlock\<close>

text \<open>Lines 37 to 45: the rollback, or the first load of the index state.\<close>

definition rollbackOrRefresh ::
  "'w hooks \<Rightarrow> block \<Rightarrow> bool \<Rightarrow> bool \<Rightarrow> bool \<Rightarrow> 'w handler \<Rightarrow> 'w env
     \<Rightarrow> (error + unit) \<times> 'w handler \<times> 'w env" where
  "rollbackOrRefresh hk blk isRollback isFirst isReplay h e =
     (if isRollback \<or> (isReplay \<and> isFirst)
      then (case call (EvRollbackTo (js_sub (blockNumber (blockInfo blk)) 1))
                      (rollbackTo hk (js_sub (blockNumber (blockInfo blk)) 1)) e of
              (Inl err, e1) \<Rightarrow> (Inl err, h, e1)
            | (Inr x, e1) \<Rightarrow> refreshIndexState hk h e1)
      else if lastProcessedBlockNumber h = 0 \<and> lastProcessedBlockHash h = []
      then refreshIndexState hk h e
      else (Inr (), h, e))"

text \<open>Lines 70 to 74: \<^verbatim>\<open>handleActions\<close> run inside \<^verbatim>\<open>handleWithState\<close>.\<close>

definition applyBlock ::
  "'w hooks \<Rightarrow> block \<Rightarrow> bool \<Rightarrow> 'w handler \<Rightarrow> 'w env
     \<Rightarrow> (error + bool \<times> int) \<times> 'w handler \<times> 'w env" where
  "applyBlock hk blk isReplay h e =
     (case call EvHandleWithState (handleWithState_enter hk) e of
        (Inl err, e1) \<Rightarrow> (Inl err, h, e1)
      | (Inr x, e1) \<Rightarrow>
          (case handleActions hk blk isReplay h e1 of
             (outcome, h2, e2) \<Rightarrow>
               (case handleWithState_leave hk outcome (store e2) of
                  (Inl err, w3) \<Rightarrow> (Inl err, h2, e2\<lparr>store := w3\<rparr>)
                | (Inr y, w3) \<Rightarrow> (Inr (False, 0), h2, e2\<lparr>store := w3\<rparr>))))"

definition handleBlock ::
  "'w hooks \<Rightarrow> block \<Rightarrow> bool \<Rightarrow> bool \<Rightarrow> bool \<Rightarrow> 'w handler \<Rightarrow> 'w env
     \<Rightarrow> (error + bool \<times> int) \<times> 'w handler \<times> 'w env" where
  "handleBlock hk blk isRollback isFirst isReplay h e =
     (case rollbackOrRefresh hk blk isRollback isFirst isReplay h e of
        (Inl err, h1, e1) \<Rightarrow> (Inl err, h1, e1)
      | (Inr x, h1, e1) \<Rightarrow>
          (let nextBlockNeeded = js_add (lastProcessedBlockNumber h1) 1 in
           if blockNumber (blockInfo blk) = lastProcessedBlockNumber h1
              \<and> blockHash (blockInfo blk) = lastProcessedBlockHash h1
           then (Inr (False, 0), h1, e1)
           else if isFirst \<and> lastProcessedBlockHash h1 \<noteq> []
           then (Inr (True, nextBlockNeeded), h1, e1)
           else if \<not> isFirst
           then (if blockNumber (blockInfo blk) \<noteq> nextBlockNeeded
                 then (Inr (True, nextBlockNeeded), h1, e1)
                 else if previousBlockHash (blockInfo blk) \<noteq> lastProcessedBlockHash h1
                 then (Inl ChainMismatch, h1, e1)
                 else applyBlock hk blk isReplay h1 e1)
           else applyBlock hk blk isReplay h1 e1))"

section \<open>A small chain, for concrete runs\<close>

definition mk_block :: "int \<Rightarrow> string \<Rightarrow> string \<Rightarrow> block" where
  "mk_block n h p =
     \<lparr>blockInfo = \<lparr>blockNumber = n, blockHash = h, previousBlockHash = p\<rparr>, actions = []\<rparr>"

text \<open>A chain source that serves the blocks of a list and a fixed head block number.\<close>

definition list_source :: "block list \<Rightarrow> int \<Rightarrow> unit chain_source" where
  "list_source bs head =
     \<lparr>getHeadBlockNumber = (\<lambda>w. (Inr head, w)),
      getBlock = (\<lambda>n w. (Inr (find (\<lambda>b. blockNumber (blockInfo b) = n) bs), w)),
      historyExhausted = historyExhausted_default\<rparr>"

definition chain5 :: "block list" where
  "chain5 = [mk_block 0 ''z'' [], mk_block 1 ''a'' ''z'', mk_block 2 ''b'' ''a'',
             mk_block 3 ''c'' ''b'', mk_block 4 ''d'' ''c'', mk_block 5 ''e'' ''d'']"

definition env0 :: "unit env" where
  "env0 = \<lparr>trace = [], store = ()\<rparr>"

text \<open>A reader in the middle of the chain: block 3 is current, blocks 1 and 2 are the
  history (which is full), block 4 is waiting in the buffer.\<close>

definition reader_mid :: reader where
  "reader_mid =
     \<lparr>startAtBlock = 1, onlyIrreversible = False, maxHistoryLength = 2,
      headBlockNumber = 4, currentBlockNumber = 3, isFirstBlock = False,
      currentBlockData = Some (mk_block 3 ''c'' ''b''),
      blockHistory = [mk_block 1 ''a'' ''z'', mk_block 2 ''b'' ''a''],
      tmpBlocks = [Some (mk_block 4 ''d'' ''c'')], index = 0\<rparr>"

section \<open>A small handler, for concrete runs\<close>

text \<open>
  The world of these runs is the persisted index state. \<^verbatim>\<open>updateIndexState\<close> writes it,
  \<^verbatim>\<open>loadIndexState\<close> reads it, \<^verbatim>\<open>rollbackTo\<close> sets it back to a block of \<open>chain5\<close>, and
  \<^verbatim>\<open>handleWithState\<close> calls \<^verbatim>\<open>handle\<close> and passes on its outcome.
\<close>

definition store_hooks :: "index_state hooks" where
  "store_hooks =
     \<lparr>updateIndexState =
        (\<lambda>blk isReplay v w.
           (Inr (), \<lparr>indexState_blockNumber = blockNumber (blockInfo blk),
                     indexState_blockHash = blockHash (blockInfo blk),
                     indexState_handlerVersionName = v\<rparr>)),
      loadIndexState = (\<lambda>w. (Inr w, w)),
      rollbackTo =
        (\<lambda>n w. (Inr (),
                  w\<lparr>indexState_blockNumber := n,
                    indexState_blockHash :=
                      (case find (\<lambda>b. blockNumber (blockInfo b) = n) chain5 of
                         Some b \<Rightarrow> blockHash (blockInfo b)
                       | None \<Rightarrow> [])\<rparr>)),
      handleWithState_enter = (\<lambda>w. (Inr (), w)),
      handleWithState_leave = (\<lambda>outcome w. (outcome, w))\<rparr>"

definition upd :: "string \<Rightarrow> string option \<Rightarrow> index_state updater" where
  "upd t v = \<lparr>updater_actionType = t, updater_apply = (\<lambda>p bi w. (Inr v, w))\<rparr>"

definition eff :: "string \<Rightarrow> index_state effect" where
  "eff t = \<lparr>effect_actionType = t, effect_run = (\<lambda>p blk w. (Inr (), w))\<rparr>"

text \<open>Version \<open>v1\<close> switches to \<open>v2\<close> on an action of type \<open>A\<close>.\<close>

definition version1 :: "index_state handler_version" where
  "version1 =
     \<lparr>versionName = ''v1'',
      updaters = [upd ''A'' (Some ''v2''), upd ''A'' None, upd ''B'' None],
      effects = [eff ''A'', eff ''B'']\<rparr>"

definition version2 :: "index_state handler_version" where
  "version2 =
     \<lparr>versionName = ''v2'', updaters = [upd ''B'' None], effects = [eff ''B'']\<rparr>"



definition act :: "string \<Rightarrow> action" where
  "act t = \<lparr>action_type = t, payload = []\<rparr>"

definition block2 :: block where
  "block2 = (mk_block 2 ''b'' ''a'')\<lparr>actions := [act ''A'', act ''B'']\<rparr>"

text \<open>A handler with the versions \<open>v1\<close> and \<open>v2\<close> that has processed block \<open>n\<close> with hash \<open>h\<close>
  and is at version \<open>v\<close>.\<close>

definition handler_at :: "int \<Rightarrow> string \<Rightarrow> string \<Rightarrow> index_state handler" where
  "handler_at n h v =
     \<lparr>lastProcessedBlockNumber = n, lastProcessedBlockHash = h, handlerVersionName = v,
      handlerVersionMap =
        \<lparr>ownProperties = [''v1'' \<mapsto> version1, ''v2'' \<mapsto> version2], prototype = None\<rparr>\<rparr>"

definition stored :: "int \<Rightarrow> string \<Rightarrow> string \<Rightarrow> index_state env" where
  "stored n h v =
     \<lparr>trace = [],
      store = \<lparr>indexState_blockNumber = n, indexState_blockHash = h,
               indexState_handlerVersionName = v\<rparr>\<rparr>"




text \<open>A version named \<^verbatim>\<open>hasOwnProperty\<close>.\<close>

definition version_shadow :: "index_state handler_version" where
  "version_shadow = \<lparr>versionName = ''hasOwnProperty'', updaters = [], effects = []\<rparr>"

text \<open>A block numbered \<open>2 ^ 53\<close> that follows a block with hash \<open>b\<close>.\<close>

definition block_big :: block where
  "block_big = mk_block 9007199254740992 ''c'' ''b''"

section \<open>Properties of the reader\<close>

lemma call_trace: "call ev f e = (x, e') \<Longrightarrow> trace e' = trace e @ [ev]"
  by (auto simp: call_def split: prod.splits)

text \<open>
  C10. \<^verbatim>\<open>seekToBlock\<close> clears \<^verbatim>\<open>currentBlockData\<close> and resets \<^verbatim>\<open>headBlockNumber\<close> to \<open>0\<close>
  before it compares the target with \<^verbatim>\<open>startAtBlock\<close>: when the target lies before
  \<^verbatim>\<open>startAtBlock\<close> the call throws, and the reader it leaves behind has lost its current
  block and its cached head; nothing else has changed and no abstract method was called.
\<close>

theorem seekToBlock_before_start_not_atomic:
  "n < startAtBlock r \<Longrightarrow>
     seekToBlock src n r e
       = (Inl SeekBeforeStart, r\<lparr>currentBlockData := None, headBlockNumber := 0\<rparr>, e)"
  by (simp add: seekToBlock_def)

theorem seekToBlock_before_start_not_atomic_witness:
  "0 < startAtBlock reader_mid
   \<and> seekToBlock (list_source chain5 5) 0 reader_mid env0
       = (Inl SeekBeforeStart, reader_mid\<lparr>currentBlockData := None, headBlockNumber := 0\<rparr>, env0)
   \<and> reader_mid\<lparr>currentBlockData := None, headBlockNumber := 0\<rparr> \<noteq> reader_mid"
proof -
  have h: "0 < startAtBlock reader_mid" by (simp add: reader_mid_def)
  have d: "reader_mid\<lparr>currentBlockData := None, headBlockNumber := 0\<rparr> \<noteq> reader_mid"
    by (simp add: reader_mid_def)
  from h d seekToBlock_before_start_not_atomic[OF h, of "list_source chain5 5" env0]
  show ?thesis by simp
qed

lemma resolveFork_loop_history:
  "resolveFork_loop src r e = (x, r', e') \<Longrightarrow>
     length (blockHistory r') \<le> length (blockHistory r) \<and> maxHistoryLength r' = maxHistoryLength r
     \<and> startAtBlock r' = startAtBlock r"
proof (induction src r e arbitrary: x r' e' rule: resolveFork_loop.induct)
  case (1 src r e)
  note [simp] = resolveFork_loop.simps[of src r e]
  show ?case
  proof (cases "blockHistory r = []")
    case True
    with "1.prems" show ?thesis by simp
  next
    case False
    note ne = this
    show ?thesis
    proof (cases "currentBlockData r")
      case None
      with ne "1.prems" show ?thesis by (simp add: Let_def)
    next
      case (Some cur)
      obtain y e1 where c: "call (EvGetBlock (blockNumber (blockInfo cur)))
                       (getBlock src (blockNumber (blockInfo cur))) e = (y, e1)"
        by (cases "call (EvGetBlock (blockNumber (blockInfo cur)))
                       (getBlock src (blockNumber (blockInfo cur))) e") auto
      show ?thesis
      proof (cases y)
        case (Inl err)
        with ne Some c "1.prems" show ?thesis by (simp add: Let_def)
      next
        case (Inr fetched)
        show ?thesis
        proof (cases "case fetched of None \<Rightarrow> False
                      | Some f \<Rightarrow> previousBlockHash (blockInfo f)
                                  = blockHash (blockInfo (last (blockHistory r)))")
          case True
          with ne Some c Inr "1.prems" show ?thesis by (auto simp add: Let_def)
        next
          case False
          with ne Some c Inr "1.prems"
          have rec: "resolveFork_loop src
                         (r\<lparr>currentBlockData := Some (last (blockHistory r)),
                            blockHistory := butlast (blockHistory r)\<rparr>) e1 = (x, r', e')"
            by (simp add: Let_def)
          from "1.IH"[OF ne refl Some c[symmetric] Inr False rec]
          show ?thesis by auto
        qed
      qed
    qed
  qed
qed

lemma resolveFork_history:
  assumes that: "resolveFork src r e = (x, r', e')"
  shows "length (blockHistory r') \<le> length (blockHistory r) \<and> maxHistoryLength r' = maxHistoryLength r
     \<and> startAtBlock r' = startAtBlock r"
proof (cases "currentBlockData r = None")
  case True
  then show ?thesis using that by (simp add: resolveFork_def)
next
  case False
  obtain y r1 e1 where l: "resolveFork_loop src r e = (y, r1, e1)"
    by (cases "resolveFork_loop src r e") auto
  note b = resolveFork_loop_history[OF l]
  have "blockHistory r' = blockHistory r1 \<and> maxHistoryLength r' = maxHistoryLength r1
        \<and> startAtBlock r' = startAtBlock r1"
    using that False unfolding resolveFork_def l
    apply (simp split: sum.splits prod.splits if_splits)
    apply auto
    done
  with b show ?thesis by auto
qed

lemma seekToBlock_history:
  "seekToBlock src n r e = (x, r', e') \<Longrightarrow>
     length (blockHistory r') \<le> length (blockHistory r) \<and> maxHistoryLength r' = maxHistoryLength r"
  by (auto simp: seekToBlock_def Let_def split: if_splits prod.splits sum.splits option.splits)

lemma refreshHead_history:
  "refreshHead src r e = (x, r', e') \<Longrightarrow>
     blockHistory r' = blockHistory r \<and> maxHistoryLength r' = maxHistoryLength r"
  by (auto simp: refreshHead_def split: if_splits prod.splits sum.splits)

lemma resolveTail_history:
  "blockHistory (resolveTail r) = blockHistory r \<and> maxHistoryLength (resolveTail r) = maxHistoryLength r"
  by (simp add: resolveTail_def Let_def)

lemma prefetch_history:
  "prefetch src r e = (x, r', e') \<Longrightarrow>
     blockHistory r' = blockHistory r \<and> maxHistoryLength r' = maxHistoryLength r"
  by (auto simp: prefetch_def Let_def split: if_splits prod.splits sum.splits)

lemma consume_history:
  assumes "consume src r e = (x, r', e')"
    and "int (length (blockHistory r)) \<le> maxHistoryLength r"
  shows "int (length (blockHistory r')) \<le> maxHistoryLength r'"
proof (cases "if index r < length (tmpBlocks r) then tmpBlocks r ! index r else None")
  case None
  with assms show ?thesis by (auto simp add: consume_def Let_def)
next
  case (Some u)
  show ?thesis
  proof (cases "(case currentBlockData r of Some c \<Rightarrow> blockHash (blockInfo c) | None \<Rightarrow> ''INVALID'')
                  = previousBlockHash (blockInfo u) \<or> blockHistory r = []")
    case True
    with Some assms show ?thesis
      by (auto simp: consume_def Let_def split: option.splits)
  next
    case False
    with Some assms show ?thesis
      by (auto simp: consume_def Let_def split: prod.splits sum.splits
               dest!: resolveFork_history)
  qed
qed

lemma advance_history:
  assumes "advance src r e = (x, r', e')"
    and "int (length (blockHistory r)) \<le> maxHistoryLength r"
  shows "int (length (blockHistory r')) \<le> maxHistoryLength r'"
  using assms
  by (auto simp: advance_def split: if_splits prod.splits sum.splits
           dest!: prefetch_history dest: consume_history)

lemma nextBlock_history:
  assumes "nextBlock src r e = (x, r', e')"
    and "int (length (blockHistory r)) \<le> maxHistoryLength r"
  shows "int (length (blockHistory r')) \<le> maxHistoryLength r'"
proof -
  obtain y r1 e1 where rh: "refreshHead src r e = (y, r1, e1)"
    by (cases "refreshHead src r e") auto
  from refreshHead_history[OF rh] assms(2)
  have b1: "int (length (blockHistory (resolveTail r1))) \<le> maxHistoryLength (resolveTail r1)"
    by (simp add: resolveTail_history)
  obtain z r2 e2 where ad: "advance src (resolveTail r1) e1 = (z, r2, e2)"
    by (cases "advance src (resolveTail r1) e1") auto
  from advance_history[OF ad b1]
  have b2: "int (length (blockHistory r2)) \<le> maxHistoryLength r2" .
  from assms(1) rh ad b2 refreshHead_history[OF rh] assms(2) show ?thesis
    by (auto simp: nextBlock_def Let_def split: sum.splits option.splits)
qed

text \<open>
  C9. The history never grows beyond \<^verbatim>\<open>maxHistoryLength\<close>: if the bound holds before a
  call of \<^verbatim>\<open>nextBlock\<close>, \<^verbatim>\<open>resolveFork\<close> or \<^verbatim>\<open>seekToBlock\<close>, it holds for the reader the
  call leaves behind, whether the call returns or throws.
\<close>

theorem blockHistory_bounded:
  assumes "int (length (blockHistory r)) \<le> maxHistoryLength r"
  shows "int (length (blockHistory (fst (snd (nextBlock src r e)))))
           \<le> maxHistoryLength (fst (snd (nextBlock src r e)))
       \<and> int (length (blockHistory (fst (snd (resolveFork src r e)))))
           \<le> maxHistoryLength (fst (snd (resolveFork src r e)))
       \<and> int (length (blockHistory (fst (snd (seekToBlock src n r e)))))
           \<le> maxHistoryLength (fst (snd (seekToBlock src n r e)))"
proof (intro conjI)
  show "int (length (blockHistory (fst (snd (nextBlock src r e)))))
          \<le> maxHistoryLength (fst (snd (nextBlock src r e)))"
    using nextBlock_history[OF _ assms, of src e] by (cases "nextBlock src r e") auto
  show "int (length (blockHistory (fst (snd (resolveFork src r e)))))
          \<le> maxHistoryLength (fst (snd (resolveFork src r e)))"
    using resolveFork_history[of src r e] assms by (cases "resolveFork src r e") auto
  show "int (length (blockHistory (fst (snd (seekToBlock src n r e)))))
          \<le> maxHistoryLength (fst (snd (seekToBlock src n r e)))"
    using seekToBlock_history[of src n r e] assms by (cases "seekToBlock src n r e") auto
qed

theorem blockHistory_bounded_witness:
  "int (length (blockHistory reader_mid)) \<le> maxHistoryLength reader_mid
   \<and> int (length (blockHistory (fst (snd (nextBlock (list_source chain5 5) reader_mid env0)))))
           \<le> maxHistoryLength (fst (snd (nextBlock (list_source chain5 5) reader_mid env0)))
   \<and> int (length (blockHistory (fst (snd (resolveFork (list_source chain5 5) reader_mid env0)))))
           \<le> maxHistoryLength (fst (snd (resolveFork (list_source chain5 5) reader_mid env0)))
   \<and> int (length (blockHistory (fst (snd (seekToBlock (list_source chain5 5) 2 reader_mid env0)))))
           \<le> maxHistoryLength (fst (snd (seekToBlock (list_source chain5 5) 2 reader_mid env0)))"
proof -
  have h: "int (length (blockHistory reader_mid)) \<le> maxHistoryLength reader_mid"
    by (simp add: reader_mid_def)
  from h blockHistory_bounded[OF h, of "list_source chain5 5" env0 2]
  show ?thesis by blast
qed

lemma upto_0_4: "[0..4::int] = [0, 1, 2, 3, 4]"
  by (simp add: upto_rec1)

text \<open>
  What the prefetch requests, for any chain source: the blocks \<open>0\<close> to
  \<^verbatim>\<open>headBlockNumber - 1\<close>, in this order, and the current block number is \<open>0\<close> afterwards.
\<close>

lemma fetchAll_trace:
  "fetchAll src ns e = (x, e') \<Longrightarrow> trace e' = trace e @ map EvGetBlock ns"
proof (induction ns arbitrary: e x e')
  case Nil
  then show ?case by simp
next
  case (Cons n ns)
  obtain y e1 where c: "call (EvGetBlock n) (getBlock src n) e = (y, e1)"
    by (cases "call (EvGetBlock n) (getBlock src n) e") auto
  obtain ys e2 where f: "fetchAll src ns e1 = (ys, e2)"
    by (cases "fetchAll src ns e1") auto
  from Cons.prems c f have "e' = e2"
    by (auto split: sum.splits)
  with Cons.IH[OF f] call_trace[OF c] show ?case by simp
qed

lemma prefetch_requests:
  assumes "tmpBlocks r = []" and "prefetch src r e = (x, r', e')"
  shows "trace e' = trace e @ map EvGetBlock [0 .. headBlockNumber r - 1]
       \<and> currentBlockNumber r' = 0"
proof -
  obtain y e1 where f: "fetchAll src [0 .. headBlockNumber r - 1] e = (y, e1)"
    by (cases "fetchAll src [0 .. headBlockNumber r - 1] e") auto
  from assms f have "e' = e1 \<and> currentBlockNumber r' = 0"
    by (auto simp: prefetch_def Let_def split: sum.splits)
  with fetchAll_trace[OF f] show ?thesis by simp
qed

text \<open>
  C1. The claim wants the prefetch to request the blocks \<^verbatim>\<open>currentBlockNumber + 1\<close> to
  \<^verbatim>\<open>headBlockNumber\<close> and to leave \<^verbatim>\<open>currentBlockNumber\<close> alone. The loop header assigns
  \<open>0\<close> to \<^verbatim>\<open>currentBlockNumber\<close> and counts from \<open>0\<close> to \<^verbatim>\<open>headBlockNumber - 1\<close>: a reader
  created to start at block 3, on a chain whose head is block 5, requests the blocks 0 to 4,
  returns block 0 and is left with \<^verbatim>\<open>currentBlockNumber = 0\<close>.
\<close>

theorem nextBlock_prefetch_from_zero:
  "nextBlock (list_source chain5 5) (new_reader 3 False 600) env0
     = (Inr (mk_block 0 ''z'' [], False, True),
        \<lparr>startAtBlock = 3, onlyIrreversible = False, maxHistoryLength = 600,
         headBlockNumber = 5, currentBlockNumber = 0, isFirstBlock = False,
         currentBlockData = Some (mk_block 0 ''z'' []), blockHistory = [],
         tmpBlocks = [Some (mk_block 0 ''z'' []), Some (mk_block 1 ''a'' ''z''),
                      Some (mk_block 2 ''b'' ''a''), Some (mk_block 3 ''c'' ''b''),
                      Some (mk_block 4 ''d'' ''c'')],
         index = 1\<rparr>,
        \<lparr>trace = [EvGetHeadBlockNumber, EvGetBlock 0, EvGetBlock 1, EvGetBlock 2,
                  EvGetBlock 3, EvGetBlock 4],
         store = ()\<rparr>)"
  by (simp add: nextBlock_def refreshHead_def resolveTail_def advance_def prefetch_def
        consume_def new_reader_def list_source_def chain5_def env0_def call_def mk_block_def
        Let_def upto_0_4)









text \<open>
  \<^verbatim>\<open>seekToBlock\<close> with a target that is neither before \<^verbatim>\<open>startAtBlock\<close> nor 1, by the
  value of \<^verbatim>\<open>toDelete\<close> after the scan. It is \<open>-1\<close> when the history is empty or its
  newest entry has the target's number: the history is kept and \<^verbatim>\<open>getBlock(n - 1)\<close> is
  fetched.
\<close>

lemma scanHistory_newest:
  "bs = [] \<or> blockNumber (blockInfo (hd bs)) = n \<Longrightarrow> scanHistory bs n toDelete = toDelete"
  by (cases bs) auto

lemma seekToBlock_newest:
  assumes "startAtBlock r \<le> n" and "n \<noteq> 1"
    and "blockHistory r = [] \<or> blockNumber (blockInfo (last (blockHistory r))) = n"
  shows "blockHistory (fst (snd (seekToBlock src n r e))) = blockHistory r
       \<and> (case call (EvGetBlock (n - 1)) (getBlock src (n - 1)) e of
             (Inl err, e1) \<Rightarrow>
                fst (seekToBlock src n r e) = Inl err
                \<and> currentBlockData (fst (snd (seekToBlock src n r e))) = None
                \<and> snd (snd (seekToBlock src n r e)) = e1
           | (Inr b, e1) \<Rightarrow>
                fst (seekToBlock src n r e) = Inr ()
                \<and> currentBlockData (fst (snd (seekToBlock src n r e))) = b
                \<and> snd (snd (seekToBlock src n r e)) = e1)"
proof -
  from assms(3) have "rev (blockHistory r) = [] \<or> blockNumber (blockInfo (hd (rev (blockHistory r)))) = n"
    by (auto simp: hd_rev)
  then have t: "scanHistory (rev (blockHistory r)) n (- 1) = - 1"
    by (rule scanHistory_newest)
  from assms(1,2) show ?thesis
    by (simp add: seekToBlock_def Let_def t split: option.split prod.split sum.split)
qed

text \<open>
  It is \<open>0\<close> when only the newest entry was passed over: \<^verbatim>\<open>splice(0)\<close> empties the history,
  nothing is left to pop and \<^verbatim>\<open>getBlock(n - 1)\<close> is fetched.
\<close>

lemma seekToBlock_single:
  assumes "startAtBlock r \<le> n" and "n \<noteq> 1"
    and "scanHistory (rev (blockHistory r)) n (- 1) = 0"
  shows "seekToBlock src n r e
           = (case call (EvGetBlock (n - 1)) (getBlock src (n - 1)) e of
                (Inl err, e1) \<Rightarrow>
                  (Inl err,
                   r\<lparr>currentBlockData := None, headBlockNumber := 0, blockHistory := [],
                     currentBlockNumber := n - 1\<rparr>,
                   e1)
              | (Inr b, e1) \<Rightarrow>
                  (Inr (),
                   r\<lparr>currentBlockData := b, headBlockNumber := 0, blockHistory := [],
                     currentBlockNumber := n - 1\<rparr>,
                   e1))"
  using assms
  by (simp add: seekToBlock_def Let_def split: prod.split sum.split)

text \<open>
  When \<^verbatim>\<open>toDelete\<close> is positive, \<^verbatim>\<open>splice(toDelete)\<close> keeps the oldest \<^verbatim>\<open>toDelete\<close>
  entries, whatever their numbers, and the last of them is popped into
  \<^verbatim>\<open>currentBlockData\<close>; no block is requested.
\<close>

lemma scanHistory_le: "scanHistory bs n toDelete \<le> toDelete + int (length bs)"
proof (induction bs arbitrary: toDelete)
  case Nil
  show ?case by simp
next
  case (Cons b bs)
  from Cons[of "toDelete + 1"] show ?case by simp
qed

lemma last_take_nth:
  assumes "0 < k" and "k \<le> length xs"
  shows "last (take k xs) = xs ! (k - 1)"
proof -
  from assms have ne: "take k xs \<noteq> []" by auto
  from assms have len: "length (take k xs) = k" by simp
  from assms have "take k xs ! (k - 1) = xs ! (k - 1)" by simp
  with last_conv_nth[OF ne] len show ?thesis by simp
qed

lemma seekToBlock_splice:
  assumes "startAtBlock r \<le> n" and "n \<noteq> 1"
    and "0 < scanHistory (rev (blockHistory r)) n (- 1)"
  shows "seekToBlock src n r e
           = (Inr (),
              r\<lparr>currentBlockData :=
                  Some (blockHistory r ! (nat (scanHistory (rev (blockHistory r)) n (- 1)) - 1)),
                headBlockNumber := 0,
                blockHistory :=
                  take (nat (scanHistory (rev (blockHistory r)) n (- 1)) - 1) (blockHistory r),
                currentBlockNumber := n - 1\<rparr>,
              e)"
proof -
  let ?t = "scanHistory (rev (blockHistory r)) n (- 1)"
  from scanHistory_le[of "rev (blockHistory r)" n "- 1"]
  have le: "nat ?t \<le> length (blockHistory r)" by simp
  from assms(3) have pos: "0 < nat ?t" by simp
  from le pos have ne: "take (nat ?t) (blockHistory r) \<noteq> []" by auto
  from pos le have l: "last (take (nat ?t) (blockHistory r)) = blockHistory r ! (nat ?t - 1)"
    by (rule last_take_nth)
  from le have b: "butlast (take (nat ?t) (blockHistory r)) = take (nat ?t - 1) (blockHistory r)"
    by (simp add: butlast_take)
  from assms ne show ?thesis
    by (simp add: seekToBlock_def Let_def l b)
qed

text \<open>
  C2. The claim has \<^verbatim>\<open>getBlock(target - 1)\<close> fetched into \<^verbatim>\<open>currentBlockData\<close> whenever no
  entry of the history has the target's number, as the documentation of \<^verbatim>\<open>seekToBlock\<close>
  has it. \<^verbatim>\<open>toDelete\<close> counts the entries newer than the match and is then used as the
  index at which \<^verbatim>\<open>splice\<close> cuts: with the blocks 1 and 2 in the history and target 5, no
  entry matches, block 1 is popped into \<^verbatim>\<open>currentBlockData\<close>, the history is left empty
  and \<^verbatim>\<open>getBlock(4)\<close> is never called.
\<close>

theorem seekToBlock_pops_history_block:
  "startAtBlock reader_mid \<le> 5
   \<and> map (blockNumber \<circ> blockInfo) (blockHistory reader_mid) = [1, 2]
   \<and> fst (call (EvGetBlock 4) (getBlock (list_source chain5 5) 4) env0)
       = Inr (Some (mk_block 4 ''d'' ''c''))
   \<and> seekToBlock (list_source chain5 5) 5 reader_mid env0
       = (Inr (),
          reader_mid\<lparr>currentBlockData := Some (mk_block 1 ''a'' ''z''), headBlockNumber := 0,
                     blockHistory := [], currentBlockNumber := 4\<rparr>,
          env0)
   \<and> currentBlockData (fst (snd (seekToBlock (list_source chain5 5) 5 reader_mid env0)))
       \<noteq> Some (mk_block 4 ''d'' ''c'')"
  by (simp add: seekToBlock_def reader_mid_def list_source_def chain5_def env0_def call_def
        mk_block_def Let_def)

section \<open>Properties of the handler\<close>

text \<open>Sums of numbers: exact up to \<open>2 ^ 53\<close>, rounded beyond.\<close>

lemma round_at_exact: "0 \<le> a \<Longrightarrow> a \<le> 2 ^ 53 \<Longrightarrow> round_at 1 a = a"
proof (cases "a < 2 ^ 53")
  case True
  assume "0 \<le> a"
  with True show ?thesis by (subst round_at.simps) simp
next
  case False
  assume "a \<le> 2 ^ 53"
  with False have a: "a = 9007199254740992" by simp
  show ?thesis unfolding a
    by (subst round_at.simps, simp, subst round_at.simps, simp)
qed

lemma to_double_exact: "\<bar>n\<bar> \<le> 2 ^ 53 \<Longrightarrow> to_double n = n"
  by (auto simp: to_double_def round_at_exact)

lemma js_add_exact: "\<bar>a + b\<bar> \<le> 2 ^ 53 \<Longrightarrow> js_add a b = a + b"
  by (simp add: js_add_def to_double_exact)

lemma js_sub_exact: "\<bar>a - b\<bar> \<le> 2 ^ 53 \<Longrightarrow> js_sub a b = a - b"
  by (simp add: js_sub_def to_double_exact)

lemma js_add_absorbed: "js_add 9007199254740992 1 = 9007199254740992"
  by (simp add: js_add_def to_double_def, subst round_at.simps, simp, subst round_at.simps, simp)

lemma js_add_tie_up: "js_add 9007199254740994 1 = 9007199254740996"
  by (simp add: js_add_def to_double_def, subst round_at.simps, simp, subst round_at.simps, simp)

lemma rollbackOrRefresh_skip:
  "\<not> isRollback \<Longrightarrow> \<not> (isReplay \<and> isFirst)
     \<Longrightarrow> lastProcessedBlockNumber h \<noteq> 0 \<or> lastProcessedBlockHash h \<noteq> []
     \<Longrightarrow> rollbackOrRefresh hk blk isRollback isFirst isReplay h e = (Inr (), h, e)"
  by (auto simp: rollbackOrRefresh_def)

lemma refreshIndexState_trace:
  "refreshIndexState hk h e = (x, h1, e1) \<Longrightarrow> trace e1 = trace e @ [EvLoadIndexState]"
  by (auto simp: refreshIndexState_def split: prod.splits sum.splits dest: call_trace)

lemma rollbackOrRefresh_trace:
  assumes "rollbackOrRefresh hk blk isRollback isFirst isReplay h e = (x, h1, e1)"
  shows "\<exists>t. trace e1 = trace e @ t
            \<and> set t \<subseteq> {EvRollbackTo (js_sub (blockNumber (blockInfo blk)) 1), EvLoadIndexState}"
proof (cases "isRollback \<or> (isReplay \<and> isFirst)")
  case True
  obtain y e0 where c: "call (EvRollbackTo (js_sub (blockNumber (blockInfo blk)) 1))
                      (rollbackTo hk (js_sub (blockNumber (blockInfo blk)) 1)) e = (y, e0)"
    by (cases "call (EvRollbackTo (js_sub (blockNumber (blockInfo blk)) 1))
                      (rollbackTo hk (js_sub (blockNumber (blockInfo blk)) 1)) e") auto
  note t0 = call_trace[OF c]
  show ?thesis
  proof (cases y)
    case (Inl err)
    with True c assms have "e1 = e0" by (auto simp add: rollbackOrRefresh_def)
    with t0 show ?thesis by simp
  next
    case (Inr u)
    with True c assms have "refreshIndexState hk h e0 = (x, h1, e1)"
      by (auto simp add: rollbackOrRefresh_def)
    from refreshIndexState_trace[OF this] t0 show ?thesis by simp
  qed
next
  case False
  show ?thesis
  proof (cases "lastProcessedBlockNumber h = 0 \<and> lastProcessedBlockHash h = []")
    case True
    with False assms have "refreshIndexState hk h e = (x, h1, e1)"
      by (auto simp add: rollbackOrRefresh_def)
    from refreshIndexState_trace[OF this] show ?thesis by simp
  next
    case F2: False
    with False assms have "e1 = e" by (auto simp add: rollbackOrRefresh_def)
    then show ?thesis by simp
  qed
qed

text \<open>
  C6. A call of \<^verbatim>\<open>handleBlock\<close> with \<^verbatim>\<open>isFirstBlock = false\<close> whose block is not the one
  last processed. When the call starts with no rollback and the handler has a cursor, the
  block is tested against that cursor: if its number is not the sum
  \<^verbatim>\<open>lastProcessedBlockNumber + 1\<close> the call returns the sum with \<^verbatim>\<open>true\<close>; if it is and its
  previous hash is not \<^verbatim>\<open>lastProcessedBlockHash\<close> the call throws; either way the handler
  and the world are as they were. When the call starts with a rollback or the first load,
  the same holds of the cursor that step leaves, \<open>h1\<close> and \<open>e1\<close> being the handler and the
  world after it, and nothing but \<^verbatim>\<open>rollbackTo\<close> and \<^verbatim>\<open>loadIndexState\<close> was called. The sum
  is the one the code computes, which is exact for a cursor of at most \<open>2 ^ 53 - 1\<close>.
\<close>

theorem handleBlock_sequence_check:
  "(\<not> isRollback
      \<and> (lastProcessedBlockNumber h \<noteq> 0 \<or> lastProcessedBlockHash h \<noteq> [])
      \<and> (blockNumber (blockInfo blk) \<noteq> lastProcessedBlockNumber h
           \<or> blockHash (blockInfo blk) \<noteq> lastProcessedBlockHash h) \<longrightarrow>
        (blockNumber (blockInfo blk) \<noteq> js_add (lastProcessedBlockNumber h) 1 \<longrightarrow>
           handleBlock hk blk isRollback False isReplay h e
             = (Inr (True, js_add (lastProcessedBlockNumber h) 1), h, e))
        \<and> (blockNumber (blockInfo blk) = js_add (lastProcessedBlockNumber h) 1
             \<and> previousBlockHash (blockInfo blk) \<noteq> lastProcessedBlockHash h \<longrightarrow>
           handleBlock hk blk isRollback False isReplay h e = (Inl ChainMismatch, h, e)))
   \<and> (rollbackOrRefresh hk blk isRollback False isReplay h e = (Inr (), h1, e1)
      \<and> (blockNumber (blockInfo blk) \<noteq> lastProcessedBlockNumber h1
           \<or> blockHash (blockInfo blk) \<noteq> lastProcessedBlockHash h1) \<longrightarrow>
        (blockNumber (blockInfo blk) \<noteq> js_add (lastProcessedBlockNumber h1) 1 \<longrightarrow>
           handleBlock hk blk isRollback False isReplay h e
             = (Inr (True, js_add (lastProcessedBlockNumber h1) 1), h1, e1))
        \<and> (blockNumber (blockInfo blk) = js_add (lastProcessedBlockNumber h1) 1
             \<and> previousBlockHash (blockInfo blk) \<noteq> lastProcessedBlockHash h1 \<longrightarrow>
           handleBlock hk blk isRollback False isReplay h e = (Inl ChainMismatch, h1, e1))
        \<and> (\<exists>t. trace e1 = trace e @ t
               \<and> set t \<subseteq> {EvRollbackTo (js_sub (blockNumber (blockInfo blk)) 1),
                            EvLoadIndexState}))
   \<and> (\<bar>lastProcessedBlockNumber h\<bar> < 2 ^ 53 \<longrightarrow>
        js_add (lastProcessedBlockNumber h) 1 = lastProcessedBlockNumber h + 1)"
proof -
  have step: "(blockNumber (blockInfo blk) \<noteq> js_add (lastProcessedBlockNumber h1) 1 \<longrightarrow>
           handleBlock hk blk isRollback False isReplay h e
             = (Inr (True, js_add (lastProcessedBlockNumber h1) 1), h1, e1))
        \<and> (blockNumber (blockInfo blk) = js_add (lastProcessedBlockNumber h1) 1
             \<and> previousBlockHash (blockInfo blk) \<noteq> lastProcessedBlockHash h1 \<longrightarrow>
           handleBlock hk blk isRollback False isReplay h e = (Inl ChainMismatch, h1, e1))"
    if "rollbackOrRefresh hk blk isRollback False isReplay h e = (Inr (), h1, e1)"
      and "blockNumber (blockInfo blk) \<noteq> lastProcessedBlockNumber h1
           \<or> blockHash (blockInfo blk) \<noteq> lastProcessedBlockHash h1"
    for h1 e1
    using that by (auto simp: handleBlock_def Let_def)
  have warm: "(blockNumber (blockInfo blk) \<noteq> js_add (lastProcessedBlockNumber h) 1 \<longrightarrow>
           handleBlock hk blk isRollback False isReplay h e
             = (Inr (True, js_add (lastProcessedBlockNumber h) 1), h, e))
        \<and> (blockNumber (blockInfo blk) = js_add (lastProcessedBlockNumber h) 1
             \<and> previousBlockHash (blockInfo blk) \<noteq> lastProcessedBlockHash h \<longrightarrow>
           handleBlock hk blk isRollback False isReplay h e = (Inl ChainMismatch, h, e))"
    if a: "\<not> isRollback
      \<and> (lastProcessedBlockNumber h \<noteq> 0 \<or> lastProcessedBlockHash h \<noteq> [])
      \<and> (blockNumber (blockInfo blk) \<noteq> lastProcessedBlockNumber h
           \<or> blockHash (blockInfo blk) \<noteq> lastProcessedBlockHash h)"
  proof -
    from a have "rollbackOrRefresh hk blk isRollback False isReplay h e = (Inr (), h, e)"
      by (intro rollbackOrRefresh_skip) auto
    from step[OF this] a show ?thesis by blast
  qed
  have exact: "js_add (lastProcessedBlockNumber h) 1 = lastProcessedBlockNumber h + 1"
    if "\<bar>lastProcessedBlockNumber h\<bar> < 2 ^ 53"
    using that by (intro js_add_exact) simp
  from step warm exact rollbackOrRefresh_trace[of hk blk isRollback False isReplay h e "Inr ()" h1 e1]
  show ?thesis by blast
qed

theorem handleBlock_sequence_check_witness:
  "blockNumber (blockInfo block2) \<noteq> js_add (lastProcessedBlockNumber (handler_at 3 ''c'' ''v1'')) 1
   \<and> \<bar>lastProcessedBlockNumber (handler_at 3 ''c'' ''v1'')\<bar> < 2 ^ 53
   \<and> js_add (lastProcessedBlockNumber (handler_at 3 ''c'' ''v1'')) 1
       = lastProcessedBlockNumber (handler_at 3 ''c'' ''v1'') + 1
   \<and> handleBlock store_hooks block2 False False False (handler_at 3 ''c'' ''v1'')
        (stored 3 ''c'' ''v1'')
       = (Inr (True, 4), handler_at 3 ''c'' ''v1'', stored 3 ''c'' ''v1'')
   \<and> blockNumber (blockInfo block2) = js_add (lastProcessedBlockNumber (handler_at 1 ''x'' ''v1'')) 1
   \<and> previousBlockHash (blockInfo block2) \<noteq> lastProcessedBlockHash (handler_at 1 ''x'' ''v1'')
   \<and> handleBlock store_hooks block2 False False False (handler_at 1 ''x'' ''v1'')
        (stored 1 ''x'' ''v1'')
       = (Inl ChainMismatch, handler_at 1 ''x'' ''v1'', stored 1 ''x'' ''v1'')
   \<and> rollbackOrRefresh store_hooks (mk_block 2 ''b'' ''y'') True False False
        (handler_at 3 ''c'' ''v1'') (stored 7 ''g'' ''v1'')
       = (Inr (), handler_at 1 ''a'' ''v1'',
          (stored 1 ''a'' ''v1'')\<lparr>trace := [EvRollbackTo 1, EvLoadIndexState]\<rparr>)
   \<and> previousBlockHash (blockInfo (mk_block 2 ''b'' ''y''))
       \<noteq> lastProcessedBlockHash (handler_at 1 ''a'' ''v1'')
   \<and> handleBlock store_hooks (mk_block 2 ''b'' ''y'') True False False (handler_at 3 ''c'' ''v1'')
        (stored 7 ''g'' ''v1'')
       = (Inl ChainMismatch, handler_at 1 ''a'' ''v1'',
          (stored 1 ''a'' ''v1'')\<lparr>trace := [EvRollbackTo 1, EvLoadIndexState]\<rparr>)
   \<and> rollbackOrRefresh store_hooks block2 False False False
        (handler_at 0 [] ''v1'') (stored 3 ''c'' ''v1'')
       = (Inr (), handler_at 3 ''c'' ''v1'',
          (stored 3 ''c'' ''v1'')\<lparr>trace := [EvLoadIndexState]\<rparr>)
   \<and> handleBlock store_hooks block2 False False False (handler_at 0 [] ''v1'')
        (stored 3 ''c'' ''v1'')
       = (Inr (True, 4), handler_at 3 ''c'' ''v1'',
          (stored 3 ''c'' ''v1'')\<lparr>trace := [EvLoadIndexState]\<rparr>)"
proof -
  have n3: "\<not> False
      \<and> (lastProcessedBlockNumber (handler_at 3 ''c'' ''v1'') \<noteq> 0
          \<or> lastProcessedBlockHash (handler_at 3 ''c'' ''v1'') \<noteq> [])
      \<and> (blockNumber (blockInfo block2) \<noteq> lastProcessedBlockNumber (handler_at 3 ''c'' ''v1'')
          \<or> blockHash (blockInfo block2) \<noteq> lastProcessedBlockHash (handler_at 3 ''c'' ''v1''))"
    and b3: "\<bar>lastProcessedBlockNumber (handler_at 3 ''c'' ''v1'')\<bar> < 2 ^ 53"
    and v3: "lastProcessedBlockNumber (handler_at 3 ''c'' ''v1'') + 1 = 4"
    and m3: "blockNumber (blockInfo block2) \<noteq> lastProcessedBlockNumber (handler_at 3 ''c'' ''v1'')
             \<or> blockHash (blockInfo block2) \<noteq> lastProcessedBlockHash (handler_at 3 ''c'' ''v1'')"
    and d3: "blockNumber (blockInfo block2) \<noteq> lastProcessedBlockNumber (handler_at 3 ''c'' ''v1'') + 1"
    by (simp_all add: handler_at_def block2_def mk_block_def)
  have n1: "\<not> False
      \<and> (lastProcessedBlockNumber (handler_at 1 ''x'' ''v1'') \<noteq> 0
          \<or> lastProcessedBlockHash (handler_at 1 ''x'' ''v1'') \<noteq> [])
      \<and> (blockNumber (blockInfo block2) \<noteq> lastProcessedBlockNumber (handler_at 1 ''x'' ''v1'')
          \<or> blockHash (blockInfo block2) \<noteq> lastProcessedBlockHash (handler_at 1 ''x'' ''v1''))"
    and c1: "blockNumber (blockInfo block2)
               = js_add (lastProcessedBlockNumber (handler_at 1 ''x'' ''v1'')) 1"
    and d1: "previousBlockHash (blockInfo block2) \<noteq> lastProcessedBlockHash (handler_at 1 ''x'' ''v1'')"
    by (simp_all add: handler_at_def block2_def mk_block_def js_add_exact)
  have r: "rollbackOrRefresh store_hooks (mk_block 2 ''b'' ''y'') True False False
        (handler_at 3 ''c'' ''v1'') (stored 7 ''g'' ''v1'')
       = (Inr (), handler_at 1 ''a'' ''v1'',
          (stored 1 ''a'' ''v1'')\<lparr>trace := [EvRollbackTo 1, EvLoadIndexState]\<rparr>)"
    and rc: "rollbackOrRefresh store_hooks block2 False False False
        (handler_at 0 [] ''v1'') (stored 3 ''c'' ''v1'')
       = (Inr (), handler_at 3 ''c'' ''v1'',
          (stored 3 ''c'' ''v1'')\<lparr>trace := [EvLoadIndexState]\<rparr>)"
    by (simp_all add: rollbackOrRefresh_def refreshIndexState_def handler_at_def stored_def
          store_hooks_def call_def block2_def mk_block_def chain5_def js_sub_exact)
  have nr: "blockNumber (blockInfo (mk_block 2 ''b'' ''y''))
              \<noteq> lastProcessedBlockNumber (handler_at 1 ''a'' ''v1'')
            \<or> blockHash (blockInfo (mk_block 2 ''b'' ''y''))
              \<noteq> lastProcessedBlockHash (handler_at 1 ''a'' ''v1'')"
    and cr: "blockNumber (blockInfo (mk_block 2 ''b'' ''y''))
               = js_add (lastProcessedBlockNumber (handler_at 1 ''a'' ''v1'')) 1"
    and dr: "previousBlockHash (blockInfo (mk_block 2 ''b'' ''y''))
               \<noteq> lastProcessedBlockHash (handler_at 1 ''a'' ''v1'')"
    by (simp_all add: handler_at_def mk_block_def js_add_exact)
  note T3 = handleBlock_sequence_check[of False "handler_at 3 ''c'' ''v1''" block2 store_hooks
      False "stored 3 ''c'' ''v1''"]
  note T1 = handleBlock_sequence_check[of False "handler_at 1 ''x'' ''v1''" block2 store_hooks
      False "stored 1 ''x'' ''v1''"]
  note TR = handleBlock_sequence_check[of True "handler_at 3 ''c'' ''v1''" "mk_block 2 ''b'' ''y''"
      store_hooks False "stored 7 ''g'' ''v1''" "handler_at 1 ''a'' ''v1''"
      "(stored 1 ''a'' ''v1'')\<lparr>trace := [EvRollbackTo 1, EvLoadIndexState]\<rparr>"]
  note TC = handleBlock_sequence_check[of False "handler_at 0 [] ''v1''" block2
      store_hooks False "stored 3 ''c'' ''v1''" "handler_at 3 ''c'' ''v1''"
      "(stored 3 ''c'' ''v1'')\<lparr>trace := [EvLoadIndexState]\<rparr>"]
  from T3 b3 have s3: "js_add (lastProcessedBlockNumber (handler_at 3 ''c'' ''v1'')) 1
       = lastProcessedBlockNumber (handler_at 3 ''c'' ''v1'') + 1"
    by blast
  from d3 s3 have c3: "blockNumber (blockInfo block2)
               \<noteq> js_add (lastProcessedBlockNumber (handler_at 3 ''c'' ''v1'')) 1"
    by simp
  from s3 v3 have s4: "js_add (lastProcessedBlockNumber (handler_at 3 ''c'' ''v1'')) 1 = 4"
    by simp
  from T3 n3 c3 s4
  have w3: "handleBlock store_hooks block2 False False False (handler_at 3 ''c'' ''v1'')
        (stored 3 ''c'' ''v1'')
       = (Inr (True, 4), handler_at 3 ''c'' ''v1'', stored 3 ''c'' ''v1'')"
    by metis
  from T1 n1 c1 d1
  have w1: "handleBlock store_hooks block2 False False False (handler_at 1 ''x'' ''v1'')
        (stored 1 ''x'' ''v1'')
       = (Inl ChainMismatch, handler_at 1 ''x'' ''v1'', stored 1 ''x'' ''v1'')"
    by blast
  from TR r nr cr dr
  have wr: "handleBlock store_hooks (mk_block 2 ''b'' ''y'') True False False
        (handler_at 3 ''c'' ''v1'') (stored 7 ''g'' ''v1'')
       = (Inl ChainMismatch, handler_at 1 ''a'' ''v1'',
          (stored 1 ''a'' ''v1'')\<lparr>trace := [EvRollbackTo 1, EvLoadIndexState]\<rparr>)"
    by blast
  from TC rc m3 c3 s4
  have wc: "handleBlock store_hooks block2 False False False (handler_at 0 [] ''v1'')
        (stored 3 ''c'' ''v1'')
       = (Inr (True, 4), handler_at 3 ''c'' ''v1'',
          (stored 3 ''c'' ''v1'')\<lparr>trace := [EvLoadIndexState]\<rparr>)"
    by metis
  show ?thesis by (intro conjI c3 b3 s3 w3 c1 d1 w1 r dr wr rc wc)
qed

text \<open>
  The claim as stated measures the block against the cursor the handler has when it is
  called, on every call. With \<^verbatim>\<open>isRollback = true\<close> a handler at block 3 that is given
  block 2 rolls back to block 1, reloads its cursor and applies block 2, although 2 is not
  3 + 1. And at the cursor \<open>2 ^ 53\<close> the sum \<^verbatim>\<open>lastProcessedBlockNumber + 1\<close> is \<open>2 ^ 53\<close>
  again: a block with that number and the right previous hash is applied.
\<close>

theorem handleBlock_sequence_counterexample:
  "blockNumber (blockInfo block2) \<noteq> lastProcessedBlockNumber (handler_at 3 ''c'' ''v1'') + 1
   \<and> blockNumber (blockInfo block2) \<noteq> lastProcessedBlockNumber (handler_at 3 ''c'' ''v1'')
   \<and> handleBlock store_hooks block2 True False False (handler_at 3 ''c'' ''v1'')
        (stored 3 ''c'' ''v1'')
       = (Inr (False, 0), handler_at 2 ''b'' ''v2'',
          (stored 2 ''b'' ''v2'')\<lparr>trace :=
             [EvRollbackTo 1, EvLoadIndexState, EvHandleWithState,
              EvUpdaterApply ''v1'' 0 [] (blockInfo block2),
              EvUpdateIndexState block2 False ''v2'',
              EvUpdaterApply ''v2'' 0 [] (blockInfo block2),
              EvEffectRun ''v2'' 0 [] block2,
              EvUpdateIndexState block2 False ''v2'']\<rparr>)
   \<and> blockNumber (blockInfo block_big)
       \<noteq> lastProcessedBlockNumber (handler_at 9007199254740992 ''b'' ''v1'') + 1
   \<and> blockHash (blockInfo block_big)
       \<noteq> lastProcessedBlockHash (handler_at 9007199254740992 ''b'' ''v1'')
   \<and> handleBlock store_hooks block_big False False False
        (handler_at 9007199254740992 ''b'' ''v1'') (stored 9007199254740992 ''b'' ''v1'')
       = (Inr (False, 0), handler_at 9007199254740992 ''c'' ''v1'',
          (stored 9007199254740992 ''c'' ''v1'')\<lparr>trace :=
             [EvHandleWithState, EvUpdateIndexState block_big False ''v1'']\<rparr>)"
  by (simp add: handleBlock_def rollbackOrRefresh_def refreshIndexState_def applyBlock_def
      handleActions_def applyUpdaters_def store_hooks_def handler_at_def stored_def call_def
      block2_def block_big_def mk_block_def chain5_def version1_def version2_def upd_def eff_def
      act_def Let_def getVersion_def hasOwnProperty_def js_add_exact js_sub_exact js_add_absorbed)

text \<open>
  C5. A call of \<^verbatim>\<open>handleBlock\<close> that neither rolls back nor loads the index state, on the
  block the handler processed last, returns \<^verbatim>\<open>[false, 0]\<close> and leaves the handler and the
  world as they were, no call made. In general the block is compared with the cursor as
  the rollback or first load leaves it: when they agree the call returns \<^verbatim>\<open>[false, 0]\<close>
  and nothing is called after \<^verbatim>\<open>rollbackTo\<close> and \<^verbatim>\<open>loadIndexState\<close>.
\<close>

theorem handleBlock_already_processed:
  "(\<not> isRollback \<and> \<not> (isReplay \<and> isFirst)
      \<and> (lastProcessedBlockNumber h \<noteq> 0 \<or> lastProcessedBlockHash h \<noteq> [])
      \<and> blockNumber (blockInfo blk) = lastProcessedBlockNumber h
      \<and> blockHash (blockInfo blk) = lastProcessedBlockHash h \<longrightarrow>
        handleBlock hk blk isRollback isFirst isReplay h e = (Inr (False, 0), h, e))
   \<and> (rollbackOrRefresh hk blk isRollback isFirst isReplay h e = (Inr (), h1, e1)
      \<and> blockNumber (blockInfo blk) = lastProcessedBlockNumber h1
      \<and> blockHash (blockInfo blk) = lastProcessedBlockHash h1 \<longrightarrow>
        handleBlock hk blk isRollback isFirst isReplay h e = (Inr (False, 0), h1, e1)
        \<and> (\<exists>t. trace e1 = trace e @ t
               \<and> set t \<subseteq> {EvRollbackTo (js_sub (blockNumber (blockInfo blk)) 1), EvLoadIndexState}))"
proof (intro conjI impI)
  assume a: "\<not> isRollback \<and> \<not> (isReplay \<and> isFirst)
      \<and> (lastProcessedBlockNumber h \<noteq> 0 \<or> lastProcessedBlockHash h \<noteq> [])
      \<and> blockNumber (blockInfo blk) = lastProcessedBlockNumber h
      \<and> blockHash (blockInfo blk) = lastProcessedBlockHash h"
  then have "rollbackOrRefresh hk blk isRollback isFirst isReplay h e = (Inr (), h, e)"
    by (intro rollbackOrRefresh_skip) auto
  with a show "handleBlock hk blk isRollback isFirst isReplay h e = (Inr (False, 0), h, e)"
    by (simp add: handleBlock_def Let_def)
next
  assume b: "rollbackOrRefresh hk blk isRollback isFirst isReplay h e = (Inr (), h1, e1)
      \<and> blockNumber (blockInfo blk) = lastProcessedBlockNumber h1
      \<and> blockHash (blockInfo blk) = lastProcessedBlockHash h1"
  then show "handleBlock hk blk isRollback isFirst isReplay h e = (Inr (False, 0), h1, e1)"
    by (simp add: handleBlock_def Let_def)
  from b show "\<exists>t. trace e1 = trace e @ t
               \<and> set t \<subseteq> {EvRollbackTo (js_sub (blockNumber (blockInfo blk)) 1), EvLoadIndexState}"
    by (intro rollbackOrRefresh_trace) auto
qed

theorem handleBlock_already_processed_witness:
  "blockNumber (blockInfo block2) = lastProcessedBlockNumber (handler_at 2 ''b'' ''v2'')
   \<and> blockHash (blockInfo block2) = lastProcessedBlockHash (handler_at 2 ''b'' ''v2'')
   \<and> handleBlock store_hooks block2 False True False (handler_at 2 ''b'' ''v2'')
        (stored 2 ''b'' ''v2'')
       = (Inr (False, 0), handler_at 2 ''b'' ''v2'', stored 2 ''b'' ''v2'')
   \<and> rollbackOrRefresh store_hooks block2 False False False (handler_at 0 [] ''v1'')
        (stored 2 ''b'' ''v2'')
       = (Inr (), handler_at 2 ''b'' ''v2'', (stored 2 ''b'' ''v2'')\<lparr>trace := [EvLoadIndexState]\<rparr>)
   \<and> handleBlock store_hooks block2 False False False (handler_at 0 [] ''v1'')
        (stored 2 ''b'' ''v2'')
       = (Inr (False, 0), handler_at 2 ''b'' ''v2'',
          (stored 2 ''b'' ''v2'')\<lparr>trace := [EvLoadIndexState]\<rparr>)"
proof -
  have a: "blockNumber (blockInfo block2) = lastProcessedBlockNumber (handler_at 2 ''b'' ''v2'')"
    and b: "blockHash (blockInfo block2) = lastProcessedBlockHash (handler_at 2 ''b'' ''v2'')"
    and c: "lastProcessedBlockNumber (handler_at 2 ''b'' ''v2'') \<noteq> 0
            \<or> lastProcessedBlockHash (handler_at 2 ''b'' ''v2'') \<noteq> []"
    by (simp_all add: handler_at_def block2_def mk_block_def)
  have d: "rollbackOrRefresh store_hooks block2 False False False (handler_at 0 [] ''v1'')
        (stored 2 ''b'' ''v2'')
       = (Inr (), handler_at 2 ''b'' ''v2'', (stored 2 ''b'' ''v2'')\<lparr>trace := [EvLoadIndexState]\<rparr>)"
    by (simp add: rollbackOrRefresh_def refreshIndexState_def handler_at_def stored_def
          store_hooks_def call_def)
  from a b c d
    handleBlock_already_processed[of False False True "handler_at 2 ''b'' ''v2''" block2
      store_hooks "stored 2 ''b'' ''v2''"]
    handleBlock_already_processed[of False False False "handler_at 0 [] ''v1''" block2
      store_hooks "stored 2 ''b'' ''v2''" "handler_at 2 ''b'' ''v2''"
      "(stored 2 ''b'' ''v2'')\<lparr>trace := [EvLoadIndexState]\<rparr>"]
  show ?thesis by simp
qed

text \<open>
  The claim as stated covers every call. With \<^verbatim>\<open>isRollback = true\<close> on the block last
  processed, the handler rolls back to the block before, reloads the index state, and
  applies the block again: \<^verbatim>\<open>handleWithState\<close>, an updater, an effect and
  \<^verbatim>\<open>updateIndexState\<close> are called. And a handler that has yet to load the index state
  returns \<^verbatim>\<open>[false, 0]\<close> for the block the store has, but its own state has changed.
\<close>

theorem handleBlock_rollback_counterexample:
  "blockNumber (blockInfo block2) = lastProcessedBlockNumber (handler_at 2 ''b'' ''v2'')
   \<and> blockHash (blockInfo block2) = lastProcessedBlockHash (handler_at 2 ''b'' ''v2'')
   \<and> fst (handleBlock store_hooks block2 True False False (handler_at 2 ''b'' ''v2'')
            (stored 2 ''b'' ''v2'')) = Inr (False, 0)
   \<and> trace (snd (snd (handleBlock store_hooks block2 True False False (handler_at 2 ''b'' ''v2'')
                        (stored 2 ''b'' ''v2''))))
       = [EvRollbackTo 1, EvLoadIndexState, EvHandleWithState,
          EvUpdaterApply ''v2'' 0 [] (blockInfo block2),
          EvEffectRun ''v2'' 0 [] block2,
          EvUpdateIndexState block2 False ''v2'']
   \<and> handleBlock store_hooks block2 False False False (handler_at 0 [] ''v1'')
        (stored 2 ''b'' ''v2'')
       = (Inr (False, 0), handler_at 2 ''b'' ''v2'',
          (stored 2 ''b'' ''v2'')\<lparr>trace := [EvLoadIndexState]\<rparr>)
   \<and> handlerVersionName (handler_at 2 ''b'' ''v2'') \<noteq> handlerVersionName (handler_at 0 [] ''v1'')"
  by (simp add: handleBlock_def rollbackOrRefresh_def refreshIndexState_def applyBlock_def
      handleActions_def applyUpdaters_def store_hooks_def handler_at_def stored_def call_def
      block2_def mk_block_def chain5_def version1_def version2_def upd_def eff_def act_def Let_def
      getVersion_def hasOwnProperty_def js_add_exact js_sub_exact)

lemma runUpdaters_trace:
  "runUpdaters hk blk isReplay a i us h e = (x, h', e') \<Longrightarrow>
     \<exists>t. trace e' = trace e @ t \<and> (\<forall>v j p b. EvEffectRun v j p b \<notin> set t)"
proof (induction us arbitrary: i h e)
  case Nil
  then show ?case by simp
next
  case (Cons u us)
  show ?case
  proof (cases "action_type a = updater_actionType u")
    case False
    with Cons.prems have "runUpdaters hk blk isReplay a (i + 1) us h e = (x, h', e')" by simp
    from Cons.IH[OF this] show ?thesis .
  next
    case True
    obtain y e1 where c: "call (EvUpdaterApply (handlerVersionName h) i (payload a) (blockInfo blk))
                   (updater_apply u (payload a) (blockInfo blk)) e = (y, e1)"
      by (cases "call (EvUpdaterApply (handlerVersionName h) i (payload a) (blockInfo blk))
                   (updater_apply u (payload a) (blockInfo blk)) e") auto
    note t1 = call_trace[OF c]
    show ?thesis
    proof (cases y)
      case (Inl err)
      with True c Cons.prems have "e' = e1" by simp
      with t1 show ?thesis by simp
    next
      case (Inr nv)
      show ?thesis
      proof (cases "\<exists>v. nv = Some v \<and> v \<noteq> []
                      \<and> hasOwnProperty (handlerVersionMap h) v \<noteq> Inr False")
        case sw: True
        then obtain v where v: "nv = Some v" "v \<noteq> []"
          "hasOwnProperty (handlerVersionMap h) v \<noteq> Inr False" by auto
        show ?thesis
        proof (cases "hasOwnProperty (handlerVersionMap h) v")
          case own: (Inl err)
          with True c Inr v Cons.prems have "e' = e1" by simp
          with t1 show ?thesis by simp
        next
          case own: (Inr b)
          with v have own': "hasOwnProperty (handlerVersionMap h) v = Inr True" by simp
          obtain z e2 where c2: "call (EvUpdateIndexState blk isReplay v)
                             (updateIndexState hk blk isReplay v) e1 = (z, e2)"
            by (cases "call (EvUpdateIndexState blk isReplay v)
                             (updateIndexState hk blk isReplay v) e1") auto
          from True c Inr v own' c2 Cons.prems have "e' = e2" by (cases z) auto
          with t1 call_trace[OF c2] show ?thesis by simp
        qed
      next
        case False
        with True c Inr Cons.prems
        have "runUpdaters hk blk isReplay a (i + 1) us h e1 = (x, h', e')"
          by (cases nv) (auto split: if_splits)
        from Cons.IH[OF this] t1 show ?thesis by auto
      qed
    qed
  qed
qed

lemma applyUpdaters_loop_trace:
  "applyUpdaters_loop hk blk isReplay as acc h e = (x, h', e') \<Longrightarrow>
     \<exists>t. trace e' = trace e @ t \<and> (\<forall>v j p b. EvEffectRun v j p b \<notin> set t)"
proof (induction as arbitrary: acc h e)
  case Nil
  then show ?case by simp
next
  case (Cons a as)
  show ?case
  proof (cases "getVersion (handlerVersionMap h) (handlerVersionName h)")
    case None
    with Cons.prems show ?thesis by simp
  next
    case (Some hv)
    obtain y h1 e1 where r: "runUpdaters hk blk isReplay a 0 (updaters hv) h e = (y, h1, e1)"
      by (cases "runUpdaters hk blk isReplay a 0 (updaters hv) h e") auto
    from runUpdaters_trace[OF r] obtain t1 where
      t1: "trace e1 = trace e @ t1" "\<forall>v j p b. EvEffectRun v j p b \<notin> set t1" by blast
    show ?thesis
    proof (cases y)
      case (Inl err)
      with Some r Cons.prems have "e' = e1" by simp
      with t1 show ?thesis by blast
    next
      case (Inr u)
      with Some r Cons.prems
      have "applyUpdaters_loop hk blk isReplay as (acc @ [(a, handlerVersionName h1)]) h1 e1
              = (x, h', e')" by simp
      from Cons.IH[OF this] obtain t2 where
        t2: "trace e' = trace e1 @ t2" "\<forall>v j p b. EvEffectRun v j p b \<notin> set t2" by blast
      from t1 t2 have "trace e' = trace e @ (t1 @ t2)
          \<and> (\<forall>v j p b. EvEffectRun v j p b \<notin> set (t1 @ t2))" by simp
      then show ?thesis by blast
    qed
  qed
qed

lemma runEffects_of_trace:
  "runEffects_of blk v a i fs e = (x, e') \<Longrightarrow>
     \<exists>t. trace e' = trace e @ t \<and> (\<forall>ev \<in> set t. \<exists>w j p b. ev = EvEffectRun w j p b)"
proof (induction fs arbitrary: i e)
  case Nil
  then show ?case by simp
next
  case (Cons f fs)
  show ?case
  proof (cases "action_type a = effect_actionType f")
    case False
    with Cons.prems have "runEffects_of blk v a (i + 1) fs e = (x, e')" by simp
    from Cons.IH[OF this] show ?thesis .
  next
    case True
    obtain y e1 where c: "call (EvEffectRun v i (payload a) blk) (effect_run f (payload a) blk) e
                            = (y, e1)"
      by (cases "call (EvEffectRun v i (payload a) blk) (effect_run f (payload a) blk) e") auto
    note t1 = call_trace[OF c]
    show ?thesis
    proof (cases y)
      case (Inl err)
      with True c Cons.prems have "e' = e1" by simp
      with t1 show ?thesis by simp
    next
      case (Inr u)
      with True c Cons.prems have "runEffects_of blk v a (i + 1) fs e1 = (x, e')" by simp
      from Cons.IH[OF this] obtain t2 where
        t2: "trace e' = trace e1 @ t2" "\<forall>ev \<in> set t2. \<exists>w j p b. ev = EvEffectRun w j p b"
        by blast
      from t1 t2 have "trace e' = trace e @ (EvEffectRun v i (payload a) blk # t2)
          \<and> (\<forall>ev \<in> set (EvEffectRun v i (payload a) blk # t2). \<exists>w j p b. ev = EvEffectRun w j p b)"
        by simp
      then show ?thesis by blast
    qed
  qed
qed

lemma runEffects_trace:
  "runEffects m vas blk e = (x, e') \<Longrightarrow>
     \<exists>t. trace e' = trace e @ t \<and> (\<forall>ev \<in> set t. \<exists>w j p b. ev = EvEffectRun w j p b)"
proof (induction vas arbitrary: e)
  case Nil
  then show ?case by simp
next
  case (Cons av vas)
  obtain a v where av: "av = (a, v)" by (cases av) auto
  show ?case
  proof (cases "getVersion m v")
    case None
    with av Cons.prems show ?thesis by simp
  next
    case (Some hv)
    obtain y e1 where r: "runEffects_of blk v a 0 (effects hv) e = (y, e1)"
      by (cases "runEffects_of blk v a 0 (effects hv) e") auto
    from runEffects_of_trace[OF r] obtain t1 where
      t1: "trace e1 = trace e @ t1" "\<forall>ev \<in> set t1. \<exists>w j p b. ev = EvEffectRun w j p b"
      by blast
    show ?thesis
    proof (cases y)
      case (Inl err)
      with av Some r Cons.prems have "e' = e1" by simp
      with t1 show ?thesis by blast
    next
      case (Inr u)
      with av Some r Cons.prems have "runEffects m vas blk e1 = (x, e')" by simp
      from Cons.IH[OF this] obtain t2 where
        t2: "trace e' = trace e1 @ t2" "\<forall>ev \<in> set t2. \<exists>w j p b. ev = EvEffectRun w j p b"
        by blast
      from t1 t2 have "trace e' = trace e @ (t1 @ t2)
          \<and> (\<forall>ev \<in> set (t1 @ t2). \<exists>w j p b. ev = EvEffectRun w j p b)"
        by auto
      then show ?thesis by blast
    qed
  qed
qed





lemma registerVersions_dom:
  "registerVersions hvs m = Inr m' \<Longrightarrow>
     (\<forall>k. ownProperties m k \<noteq> None \<longrightarrow> ownProperties m' k \<noteq> None)
     \<and> (\<forall>hv \<in> set hvs. versionName hv \<noteq> ''__proto__''
            \<longrightarrow> ownProperties m' (versionName hv) \<noteq> None)"
proof (induction hvs arbitrary: m)
  case Nil
  then show ?case by simp
next
  case (Cons hv hvs)
  from Cons.prems
  have r: "registerVersions hvs (setProperty m (versionName hv) hv) = Inr m'"
    by (auto split: sum.splits bool.splits)
  have s: "ownProperties m k \<noteq> None
             \<Longrightarrow> ownProperties (setProperty m (versionName hv) hv) k \<noteq> None" for k
    by (simp add: setProperty_def)
  have t: "versionName hv \<noteq> ''__proto__''
             \<Longrightarrow> ownProperties (setProperty m (versionName hv) hv) (versionName hv) \<noteq> None"
    by (simp add: setProperty_def)
  from Cons.IH[OF r] s t show ?case by auto
qed

lemma registerVersions_prototype:
  "registerVersions hvs m = Inr m' \<Longrightarrow> ownProperties m' ''__proto__'' = None
     \<Longrightarrow> ownProperties m ''__proto__'' = None"
  using registerVersions_dom[of hvs m m'] by auto








lemma applyUpdaters_loop_actions:
  "applyUpdaters_loop hk blk isReplay as acc h e = (Inr va, h', e') \<Longrightarrow>
     map fst va = map fst acc @ as"
proof (induction as arbitrary: acc h e)
  case Nil
  then show ?case by simp
next
  case (Cons a as)
  from Cons.prems obtain hv where hv: "getVersion (handlerVersionMap h) (handlerVersionName h) = Some hv"
    by (cases "getVersion (handlerVersionMap h) (handlerVersionName h)") auto
  obtain y h1 e1 where r: "runUpdaters hk blk isReplay a 0 (updaters hv) h e = (y, h1, e1)"
    by (cases "runUpdaters hk blk isReplay a 0 (updaters hv) h e") auto
  from Cons.prems hv r obtain u where y: "y = Inr u" by (cases y) auto
  from Cons.prems hv r y
  have "applyUpdaters_loop hk blk isReplay as (acc @ [(a, handlerVersionName h1)]) h1 e1
          = (Inr va, h', e')"
    by simp
  from Cons.IH[OF this] show ?case by simp
qed

lemma new_handler_hasOwnProperty:
  assumes "new_handler hvs = Inr h"
  shows "hasOwnProperty (handlerVersionMap h) k
           = Inr (ownProperties (handlerVersionMap h) k \<noteq> None)"
proof -
  from assms obtain m hasV1 where "hasOwnProperty m ''v1'' = Inr hasV1"
    and "handlerVersionMap h = m"
    by (auto simp: new_handler_def split: if_splits sum.splits)
  then show ?thesis by (auto simp: hasOwnProperty_def split: if_splits)
qed

text \<open>A version named \<^verbatim>\<open>hasOwnProperty\<close> shadows the method the constructor then calls.\<close>

lemma new_handler_shadowed: "new_handler [version_shadow] = Inl TypeError"
  by (simp add: new_handler_def version_shadow_def hasOwnProperty_def setProperty_def)



text \<open>
  C8. \<^verbatim>\<open>handleActions\<close> with \<^verbatim>\<open>isReplay = true\<close> calls no effect, whatever its outcome. When
  \<^verbatim>\<open>applyUpdaters\<close> returns it has gone through all the actions of the block and called no
  effect; on replay the one call that follows is \<^verbatim>\<open>updateIndexState\<close> with the version
  then active; otherwise, in a call that returns, the calls that follow are those of
  \<^verbatim>\<open>runEffects\<close>, all of them effects, and after them \<^verbatim>\<open>updateIndexState\<close>.
\<close>

theorem handleActions_effects_skipped_on_replay:
  assumes "handleActions hk blk isReplay h e = (x, h', e')"
  shows "(isReplay \<longrightarrow>
            (\<exists>t. trace e' = trace e @ t \<and> (\<forall>v j p b. EvEffectRun v j p b \<notin> set t)))
       \<and> (\<forall>va h1 e1. applyUpdaters hk blk isReplay h e = (Inr va, h1, e1) \<longrightarrow>
            map fst va = actions blk
            \<and> (\<exists>tu. trace e1 = trace e @ tu \<and> (\<forall>v j p b. EvEffectRun v j p b \<notin> set tu))
            \<and> (isReplay \<longrightarrow>
                 trace e' = trace e1 @ [EvUpdateIndexState blk True (handlerVersionName h1)])
            \<and> (\<not> isReplay \<and> x = Inr () \<longrightarrow>
                 (\<exists>e2 tf. runEffects (handlerVersionMap h1) va blk e1 = (Inr (), e2)
                    \<and> trace e2 = trace e1 @ tf
                    \<and> (\<forall>ev \<in> set tf. \<exists>w j p b. ev = EvEffectRun w j p b)
                    \<and> trace e' = trace e2 @ [EvUpdateIndexState blk False (handlerVersionName h1)])))"
proof -
  obtain y h1 e1 where a: "applyUpdaters hk blk isReplay h e = (y, h1, e1)"
    by (cases "applyUpdaters hk blk isReplay h e") auto
  from a have al: "applyUpdaters_loop hk blk isReplay (actions blk) [] h e = (y, h1, e1)"
    by (simp add: applyUpdaters_def)
  from applyUpdaters_loop_trace[OF al] obtain tu where
    tu: "trace e1 = trace e @ tu" "\<forall>v j p b. EvEffectRun v j p b \<notin> set tu" by blast
  show ?thesis
  proof (cases y)
    case (Inl err)
    with a assms have "e' = e1" by (simp add: handleActions_def)
    with tu Inl a show ?thesis by auto
  next
    case (Inr va)
    from applyUpdaters_loop_actions[OF al[unfolded Inr]] have acts: "map fst va = actions blk"
      by simp
    show ?thesis
    proof (cases isReplay)
      case True
      obtain z e3 where c: "call (EvUpdateIndexState blk True (handlerVersionName h1))
                          (updateIndexState hk blk True (handlerVersionName h1)) e1 = (z, e3)"
        by (cases "call (EvUpdateIndexState blk True (handlerVersionName h1))
                          (updateIndexState hk blk True (handlerVersionName h1)) e1") auto
      from True Inr a c assms have "e' = e3"
        by (cases z) (auto simp: handleActions_def)
      with call_trace[OF c] have t3: "trace e' = trace e1 @ [EvUpdateIndexState blk True (handlerVersionName h1)]"
        by simp
      with tu have "trace e' = trace e @ (tu @ [EvUpdateIndexState blk True (handlerVersionName h1)])
          \<and> (\<forall>v j p b. EvEffectRun v j p b
                 \<notin> set (tu @ [EvUpdateIndexState blk True (handlerVersionName h1)]))"
        by simp
      then have "\<exists>t. trace e' = trace e @ t \<and> (\<forall>v j p b. EvEffectRun v j p b \<notin> set t)"
        by blast
      with True Inr a acts tu t3 show ?thesis by auto
    next
      case False
      obtain q e2 where f: "runEffects (handlerVersionMap h1) va blk e1 = (q, e2)"
        by (cases "runEffects (handlerVersionMap h1) va blk e1") auto
      from runEffects_trace[OF f] obtain tf where
        tf: "trace e2 = trace e1 @ tf" "\<forall>ev \<in> set tf. \<exists>w j p b. ev = EvEffectRun w j p b"
        by blast
      have "\<exists>e2 tf. runEffects (handlerVersionMap h1) va blk e1 = (Inr (), e2)
                    \<and> trace e2 = trace e1 @ tf
                    \<and> (\<forall>ev \<in> set tf. \<exists>w j p b. ev = EvEffectRun w j p b)
                    \<and> trace e' = trace e2 @ [EvUpdateIndexState blk False (handlerVersionName h1)]"
        if ok: "x = Inr ()"
      proof -
        from ok False Inr a f assms have q: "q = Inr ()"
          by (cases q) (auto simp: handleActions_def)
        obtain z e3 where c: "call (EvUpdateIndexState blk False (handlerVersionName h1))
                          (updateIndexState hk blk False (handlerVersionName h1)) e2 = (z, e3)"
          by (cases "call (EvUpdateIndexState blk False (handlerVersionName h1))
                          (updateIndexState hk blk False (handlerVersionName h1)) e2") auto
        from False Inr a f q c assms have "e' = e3"
          by (cases z) (auto simp: handleActions_def)
        with call_trace[OF c] f q tf show ?thesis by auto
      qed
      with False Inr a acts tu show ?thesis by auto
    qed
  qed
qed

theorem handleActions_effects_skipped_on_replay_witness:
  "handleActions store_hooks block2 True (handler_at 1 ''a'' ''v1'') (stored 1 ''a'' ''v1'')
       = (Inr (), handler_at 2 ''b'' ''v2'',
          (stored 2 ''b'' ''v2'')\<lparr>trace := [EvUpdaterApply ''v1'' 0 [] (blockInfo block2),
            EvUpdateIndexState block2 True ''v2'',
            EvUpdaterApply ''v2'' 0 [] (blockInfo block2),
            EvUpdateIndexState block2 True ''v2'']\<rparr>)
   \<and> applyUpdaters store_hooks block2 True (handler_at 1 ''a'' ''v1'') (stored 1 ''a'' ''v1'')
       = (Inr [(act ''A'', ''v2''), (act ''B'', ''v2'')], handler_at 1 ''a'' ''v2'',
          (stored 2 ''b'' ''v2'')\<lparr>trace := [EvUpdaterApply ''v1'' 0 [] (blockInfo block2),
            EvUpdateIndexState block2 True ''v2'',
            EvUpdaterApply ''v2'' 0 [] (blockInfo block2)]\<rparr>)
   \<and> (\<exists>t. trace ((stored 2 ''b'' ''v2'')\<lparr>trace := [EvUpdaterApply ''v1'' 0 [] (blockInfo block2),
            EvUpdateIndexState block2 True ''v2'',
            EvUpdaterApply ''v2'' 0 [] (blockInfo block2),
            EvUpdateIndexState block2 True ''v2'']\<rparr>)
            = trace (stored 1 ''a'' ''v1'') @ t
          \<and> (\<forall>v j p b. EvEffectRun v j p b \<notin> set t))
   \<and> trace ((stored 2 ''b'' ''v2'')\<lparr>trace := [EvUpdaterApply ''v1'' 0 [] (blockInfo block2),
            EvUpdateIndexState block2 True ''v2'',
            EvUpdaterApply ''v2'' 0 [] (blockInfo block2),
            EvUpdateIndexState block2 True ''v2'']\<rparr>)
       = trace ((stored 2 ''b'' ''v2'')\<lparr>trace := [EvUpdaterApply ''v1'' 0 [] (blockInfo block2),
            EvUpdateIndexState block2 True ''v2'',
            EvUpdaterApply ''v2'' 0 [] (blockInfo block2)]\<rparr>)
           @ [EvUpdateIndexState block2 True (handlerVersionName (handler_at 1 ''a'' ''v2''))]
   \<and> handleActions store_hooks block2 False (handler_at 1 ''a'' ''v1'') (stored 1 ''a'' ''v1'')
       = (Inr (), handler_at 2 ''b'' ''v2'',
          (stored 2 ''b'' ''v2'')\<lparr>trace := [EvUpdaterApply ''v1'' 0 [] (blockInfo block2),
            EvUpdateIndexState block2 False ''v2'',
            EvUpdaterApply ''v2'' 0 [] (blockInfo block2),
            EvEffectRun ''v2'' 0 [] block2,
            EvUpdateIndexState block2 False ''v2'']\<rparr>)
   \<and> applyUpdaters store_hooks block2 False (handler_at 1 ''a'' ''v1'') (stored 1 ''a'' ''v1'')
       = (Inr [(act ''A'', ''v2''), (act ''B'', ''v2'')], handler_at 1 ''a'' ''v2'',
          (stored 2 ''b'' ''v2'')\<lparr>trace := [EvUpdaterApply ''v1'' 0 [] (blockInfo block2),
            EvUpdateIndexState block2 False ''v2'',
            EvUpdaterApply ''v2'' 0 [] (blockInfo block2)]\<rparr>)
   \<and> (\<exists>e2 tf. runEffects (handlerVersionMap (handler_at 1 ''a'' ''v2'')) [(act ''A'', ''v2''), (act ''B'', ''v2'')] block2
                  ((stored 2 ''b'' ''v2'')\<lparr>trace := [EvUpdaterApply ''v1'' 0 [] (blockInfo block2),
            EvUpdateIndexState block2 False ''v2'',
            EvUpdaterApply ''v2'' 0 [] (blockInfo block2)]\<rparr>) = (Inr (), e2)
          \<and> trace e2 = trace ((stored 2 ''b'' ''v2'')\<lparr>trace := [EvUpdaterApply ''v1'' 0 [] (blockInfo block2),
            EvUpdateIndexState block2 False ''v2'',
            EvUpdaterApply ''v2'' 0 [] (blockInfo block2)]\<rparr>) @ tf
          \<and> (\<forall>ev \<in> set tf. \<exists>w j p b. ev = EvEffectRun w j p b)
          \<and> trace ((stored 2 ''b'' ''v2'')\<lparr>trace := [EvUpdaterApply ''v1'' 0 [] (blockInfo block2),
            EvUpdateIndexState block2 False ''v2'',
            EvUpdaterApply ''v2'' 0 [] (blockInfo block2),
            EvEffectRun ''v2'' 0 [] block2,
            EvUpdateIndexState block2 False ''v2'']\<rparr>)
              = trace e2 @ [EvUpdateIndexState block2 False (handlerVersionName (handler_at 1 ''a'' ''v2''))])"
proof -
  have hA: "handleActions store_hooks block2 True (handler_at 1 ''a'' ''v1'') (stored 1 ''a'' ''v1'')
       = (Inr (), handler_at 2 ''b'' ''v2'',
          (stored 2 ''b'' ''v2'')\<lparr>trace := [EvUpdaterApply ''v1'' 0 [] (blockInfo block2),
            EvUpdateIndexState block2 True ''v2'',
            EvUpdaterApply ''v2'' 0 [] (blockInfo block2),
            EvUpdateIndexState block2 True ''v2'']\<rparr>)"
    by (simp add: handleActions_def applyUpdaters_def store_hooks_def handler_at_def stored_def call_def
          block2_def mk_block_def version1_def version2_def upd_def eff_def act_def
          getVersion_def hasOwnProperty_def)
  have hU: "applyUpdaters store_hooks block2 True (handler_at 1 ''a'' ''v1'') (stored 1 ''a'' ''v1'')
       = (Inr [(act ''A'', ''v2''), (act ''B'', ''v2'')], handler_at 1 ''a'' ''v2'',
          (stored 2 ''b'' ''v2'')\<lparr>trace := [EvUpdaterApply ''v1'' 0 [] (blockInfo block2),
            EvUpdateIndexState block2 True ''v2'',
            EvUpdaterApply ''v2'' 0 [] (blockInfo block2)]\<rparr>)"
    by (simp add: handleActions_def applyUpdaters_def store_hooks_def handler_at_def stored_def call_def
          block2_def mk_block_def version1_def version2_def upd_def eff_def act_def
          getVersion_def hasOwnProperty_def)
  have hB: "handleActions store_hooks block2 False (handler_at 1 ''a'' ''v1'') (stored 1 ''a'' ''v1'')
       = (Inr (), handler_at 2 ''b'' ''v2'',
          (stored 2 ''b'' ''v2'')\<lparr>trace := [EvUpdaterApply ''v1'' 0 [] (blockInfo block2),
            EvUpdateIndexState block2 False ''v2'',
            EvUpdaterApply ''v2'' 0 [] (blockInfo block2),
            EvEffectRun ''v2'' 0 [] block2,
            EvUpdateIndexState block2 False ''v2'']\<rparr>)"
    by (simp add: handleActions_def applyUpdaters_def store_hooks_def handler_at_def stored_def call_def
          block2_def mk_block_def version1_def version2_def upd_def eff_def act_def
          getVersion_def hasOwnProperty_def)
  have hV: "applyUpdaters store_hooks block2 False (handler_at 1 ''a'' ''v1'') (stored 1 ''a'' ''v1'')
       = (Inr [(act ''A'', ''v2''), (act ''B'', ''v2'')], handler_at 1 ''a'' ''v2'',
          (stored 2 ''b'' ''v2'')\<lparr>trace := [EvUpdaterApply ''v1'' 0 [] (blockInfo block2),
            EvUpdateIndexState block2 False ''v2'',
            EvUpdaterApply ''v2'' 0 [] (blockInfo block2)]\<rparr>)"
    by (simp add: handleActions_def applyUpdaters_def store_hooks_def handler_at_def stored_def call_def
          block2_def mk_block_def version1_def version2_def upd_def eff_def act_def
          getVersion_def hasOwnProperty_def)
  from handleActions_effects_skipped_on_replay[OF hA]
  have c1: "(\<exists>t. trace ((stored 2 ''b'' ''v2'')\<lparr>trace := [EvUpdaterApply ''v1'' 0 [] (blockInfo block2),
            EvUpdateIndexState block2 True ''v2'',
            EvUpdaterApply ''v2'' 0 [] (blockInfo block2),
            EvUpdateIndexState block2 True ''v2'']\<rparr>)
            = trace (stored 1 ''a'' ''v1'') @ t
          \<and> (\<forall>v j p b. EvEffectRun v j p b \<notin> set t))"
    by simp
  from handleActions_effects_skipped_on_replay[OF hA] hU
  have c1b: "trace ((stored 2 ''b'' ''v2'')\<lparr>trace := [EvUpdaterApply ''v1'' 0 [] (blockInfo block2),
            EvUpdateIndexState block2 True ''v2'',
            EvUpdaterApply ''v2'' 0 [] (blockInfo block2),
            EvUpdateIndexState block2 True ''v2'']\<rparr>)
       = trace ((stored 2 ''b'' ''v2'')\<lparr>trace := [EvUpdaterApply ''v1'' 0 [] (blockInfo block2),
            EvUpdateIndexState block2 True ''v2'',
            EvUpdaterApply ''v2'' 0 [] (blockInfo block2)]\<rparr>)
           @ [EvUpdateIndexState block2 True (handlerVersionName (handler_at 1 ''a'' ''v2''))]"
    by blast
  from handleActions_effects_skipped_on_replay[OF hB] hV
  have c2: "(\<exists>e2 tf. runEffects (handlerVersionMap (handler_at 1 ''a'' ''v2'')) [(act ''A'', ''v2''), (act ''B'', ''v2'')] block2
                  ((stored 2 ''b'' ''v2'')\<lparr>trace := [EvUpdaterApply ''v1'' 0 [] (blockInfo block2),
            EvUpdateIndexState block2 False ''v2'',
            EvUpdaterApply ''v2'' 0 [] (blockInfo block2)]\<rparr>) = (Inr (), e2)
          \<and> trace e2 = trace ((stored 2 ''b'' ''v2'')\<lparr>trace := [EvUpdaterApply ''v1'' 0 [] (blockInfo block2),
            EvUpdateIndexState block2 False ''v2'',
            EvUpdaterApply ''v2'' 0 [] (blockInfo block2)]\<rparr>) @ tf
          \<and> (\<forall>ev \<in> set tf. \<exists>w j p b. ev = EvEffectRun w j p b)
          \<and> trace ((stored 2 ''b'' ''v2'')\<lparr>trace := [EvUpdaterApply ''v1'' 0 [] (blockInfo block2),
            EvUpdateIndexState block2 False ''v2'',
            EvUpdaterApply ''v2'' 0 [] (blockInfo block2),
            EvEffectRun ''v2'' 0 [] block2,
            EvUpdateIndexState block2 False ''v2'']\<rparr>)
              = trace e2 @ [EvUpdateIndexState block2 False (handlerVersionName (handler_at 1 ''a'' ''v2''))])"
    by blast
  show ?thesis by (intro conjI hA hU c1 c1b hB hV c2)
qed







end
